theory Spec2Isabelle
  imports Main "HOL-Library.Word"
begin

unbundle bit_operations_syntax

section \<open>Data model of the knowledge subsystem (jma\_knowledge.cpp)\<close>

text \<open>
  Byte strings are modelled as \<^typ>\<open>string\<close>: an Isabelle character is one byte.
  A \<open>const char*\<close> is the buffer it points to; the terminating null is the byte read
  at the position just behind the buffer.
\<close>

datatype EncodeType = ENCODE_TYPE_EUCJP | ENCODE_TYPE_SJIS | ENCODE_TYPE_NUM

text \<open>Fatal events of the source: a failed \<open>assert\<close> and a read through a null pointer.\<close>

datatype error =
    AssertTrailByte          \<comment> \<open>\<open>assert(uc[1])\<close> in \<open>JMA_CType_SJIS::getByteCount\<close>\<close>
  | AssertSeparatorLength    \<comment> \<open>\<open>assert(false)\<close> in \<open>isSentenceSeparator\<close>\<close>
  | AssertConfigLength       \<comment> \<open>\<open>assert(false)\<close> in \<open>loadSentenceSeparatorConfig\<close>\<close>
  | AssertOccupiedBytes      \<comment> \<open>\<open>assert(ret > 0 && ret < 4)\<close> in \<open>getOccupiedBytes\<close>\<close>
  | AssertPosSize            \<comment> \<open>\<open>assert(posSize > 0)\<close> in \<open>convertTxtToCSV\<close>\<close>
  | AssertBinUserDic         \<comment> \<open>\<open>assert(! binUserDic_.empty())\<close> in \<open>createTagger\<close>\<close>
  | AssertCharWidth          \<comment> \<open>the classifier's width runs past the terminator\<close>
  | NullDereference          \<comment> \<open>\<open>*p\<close> with \<open>p == 0\<close>\<close>

text \<open>The character classifier \<open>JMA_CType\<close>, as far as the knowledge class uses it.\<close>

type_synonym JMA_CType = "string \<Rightarrow> error + nat"

text \<open>Files on disk: a path that cannot be opened maps to \<open>None\<close>.\<close>

type_synonym FileSystem = "string \<Rightarrow> string option"

text \<open>The resources of the opened archive (\<open>JMA_Dictionary::getDict\<close>).\<close>

type_synonym DictArchive = "string \<Rightarrow> string option"

record Morpheme =
  lexicon :: string
  readForm :: string

type_synonym MorphemeList = "Morpheme list"

subsection \<open>Bytes and lines\<close>

definition uc :: "string \<Rightarrow> nat \<Rightarrow> nat" where
  "uc p i = (if i < length p then of_char (p ! i) else 0)"

definition c_str :: "string \<Rightarrow> string" where
  "c_str s = takeWhile (\<lambda>c. c \<noteq> CHR 0x00) s"

definition isspace :: "char \<Rightarrow> bool" where
  "isspace c = (c = CHR 0x20 \<or> (9 \<le> (of_char c :: nat) \<and> (of_char c :: nat) \<le> 13))"

definition isdigit :: "char \<Rightarrow> bool" where
  "isdigit c = (48 \<le> (of_char c :: nat) \<and> (of_char c :: nat) \<le> 57)"

text \<open>
  Cutting a byte string at a delimiter. A piece ends at each delimiter; the bytes behind
  the last delimiter are a piece only when there are any. This is what successive
  \<open>std::getline\<close> calls deliver until the stream fails, and what the loop of
  \<open>tokenizeCSV\<close> pushes into \<open>compVec\<close>.
\<close>

fun pieces_from :: "char \<Rightarrow> string \<Rightarrow> string \<Rightarrow> string list" where
  "pieces_from d acc [] = (if acc = [] then [] else [rev acc])"
| "pieces_from d acc (c # cs) =
     (if c = d then rev acc # pieces_from d [] cs else pieces_from d (c # acc) cs)"

definition getlines :: "string \<Rightarrow> string list" where
  "getlines txt = pieces_from (CHR 0x0A) [] txt"

definition tokenizeCSV :: "string \<Rightarrow> string list" where
  "tokenizeCSV str = pieces_from (CHR '','') [] str"

text \<open>\<open>line.substr(0, line.find('\r'))\<close>\<close>

definition stripCR :: "string \<Rightarrow> string" where
  "stripCR line = takeWhile (\<lambda>c. c \<noteq> CHR 0x0D) line"

subsection \<open>Shift-JIS classifier (jma\_ctype\_sjis.cpp)\<close>

text \<open>A pointer of the model is never null, so \<open>assert(p)\<close> holds.\<close>

definition getByteCount_SJIS :: JMA_CType where
  "getByteCount_SJIS p =
     (if uc p 0 = 0 then Inr 0
      else if uc p 0 < 0x80 then Inr 1
      else if uc p 1 = 0 then Inl AssertTrailByte
      else Inr 2)"

subsection \<open>The knowledge instance\<close>

text \<open>
  \<open>POSTable\<close> and \<open>CharTable\<close> are declared in headers that are not part of the
  sources at hand. A POS table is taken as the two queries \<open>convertTxtToCSV\<close> makes:
  \<open>getIndexFromAlphaPOS\<close> (\<open>-1\<close> for an unknown label) and \<open>getPOS\<close> with
  \<open>POS_FORMAT_FULL_CATEGORY\<close> (\<open>None\<close> for the null pointer). A character table is
  a finite map.
\<close>

record POSTable =
  getIndexFromAlphaPOS :: "string \<Rightarrow> int"
  getPOS_FULL_CATEGORY :: "int \<Rightarrow> string option"

type_synonym CharTable = "string \<Rightarrow> string option"

text \<open>
  The members of \<open>Knowledge\<close> and \<open>JMA_Knowledge\<close> that the operations below read or
  write. A field carries the member's name without its trailing underscore. The
  separator sets \<open>seps_\<close> are indexed by the byte width of the character and hold
  \<open>unsigned int\<close> values; the keyword-POS set holds \<open>int\<close> indices.
\<close>

record JMA_Knowledge =
  encodeType :: EncodeType
  systemDictPath :: string
  userDictNames :: "string list"
  binUserDic :: string
  baseFormOffset :: int
  readFormOffset :: int
  normFormOffset :: int
  userNounPOS :: string
  ctype :: JMA_CType
  configEncodeType :: EncodeType
  keywordPOSSet :: "int set"
  seps :: "nat \<Rightarrow> 32 word set"
  decompMap :: "string \<Rightarrow> MorphemeList option"
  posTable :: POSTable
  kanaTable :: CharTable
  widthTable :: CharTable
  caseTable :: CharTable

definition POSTable_empty :: POSTable where
  "POSTable_empty = \<lparr> getIndexFromAlphaPOS = (\<lambda>s. -1), getPOS_FULL_CATEGORY = (\<lambda>i. None) \<rparr>"

definition DEFAULT_CONFIG_ENCODE_TYPE :: EncodeType where
  "DEFAULT_CONFIG_ENCODE_TYPE = ENCODE_TYPE_EUCJP"

text \<open>
  The constructors of \<open>Knowledge\<close> and \<open>JMA_Knowledge\<close>. The factory
  \<open>JMA_CType::instance\<close> is a parameter; the containers and tables start empty.
\<close>

definition JMA_Knowledge_new :: "(EncodeType \<Rightarrow> JMA_CType) \<Rightarrow> JMA_Knowledge" where
  "JMA_Knowledge_new instance =
     \<lparr> encodeType = ENCODE_TYPE_EUCJP, systemDictPath = [], userDictNames = [],
       binUserDic = [], baseFormOffset = 0, readFormOffset = 0, normFormOffset = 0,
       userNounPOS = [], ctype = instance ENCODE_TYPE_EUCJP,
       configEncodeType = DEFAULT_CONFIG_ENCODE_TYPE, keywordPOSSet = {},
       seps = (\<lambda>w. {}), decompMap = Map.empty,
       posTable = POSTable_empty,
       kanaTable = Map.empty, widthTable = Map.empty, caseTable = Map.empty \<rparr>"

definition setEncodeType :: "(EncodeType \<Rightarrow> JMA_CType) \<Rightarrow> EncodeType \<Rightarrow> JMA_Knowledge \<Rightarrow> JMA_Knowledge" where
  "setEncodeType instance type k =
     (if encodeType k \<noteq> type then k\<lparr> encodeType := type, ctype := instance type \<rparr> else k)"

definition addUserDict :: "string \<Rightarrow> JMA_Knowledge \<Rightarrow> JMA_Knowledge" where
  "addUserDict fileName k = k\<lparr> userDictNames := userDictNames k @ [fileName] \<rparr>"

definition isKeywordPOS :: "JMA_Knowledge \<Rightarrow> int \<Rightarrow> bool" where
  "isKeywordPOS k pos = (if keywordPOSSet k = {} then True else pos \<in> keywordPOSSet k)"

subsection \<open>Sentence separators\<close>

text \<open>
  The packed value of the first \<open>n\<close> bytes at \<open>p\<close>, most significant byte first:
  \<open>uc[0]\<close>, \<open>uc[0] << 8 | uc[1]\<close>, \<open>uc[0] << 16 | uc[1] << 8 | uc[2]\<close>, ...,
  as the 32-bit value that is looked up in the set.
\<close>

definition byte32 :: "string \<Rightarrow> nat \<Rightarrow> 32 word" where
  "byte32 p i = of_nat (uc p i)"

definition pack1 :: "string \<Rightarrow> 32 word" where
  "pack1 p = byte32 p 0"

definition pack2 :: "string \<Rightarrow> 32 word" where
  "pack2 p = push_bit 8 (byte32 p 0) OR byte32 p 1"

definition pack3 :: "string \<Rightarrow> 32 word" where
  "pack3 p = push_bit 16 (byte32 p 0) OR push_bit 8 (byte32 p 1) OR byte32 p 2"

definition pack4 :: "string \<Rightarrow> 32 word" where
  "pack4 p = push_bit 24 (byte32 p 0) OR push_bit 16 (byte32 p 1) OR push_bit 8 (byte32 p 2)
               OR byte32 p 3"

definition isSentenceSeparator :: "JMA_Knowledge \<Rightarrow> string \<Rightarrow> error + bool" where
  "isSentenceSeparator k p =
     (case ctype k p of
        Inl e \<Rightarrow> Inl e
      | Inr bytes \<Rightarrow>
          if bytes = 1 then Inr (pack1 p \<in> seps k 1)
          else if bytes = 2 then Inr (pack2 p \<in> seps k 2)
          else if bytes = 3 then Inr (pack3 p \<in> seps k 3)
          else if bytes = 4 then Inr (pack4 p \<in> seps k 4)
          else Inl AssertSeparatorLength)"

function getOccupiedBytes_loop :: "32 word \<Rightarrow> nat \<Rightarrow> nat" where
  "getOccupiedBytes_loop val ret =
     (if val AND 0xffffff00 \<noteq> 0 then getOccupiedBytes_loop (drop_bit 4 val) (ret + 1) else ret)"
  by pat_completeness auto
termination
proof (relation "measure (\<lambda>(val, ret). unat val)")
  show "wf (measure (\<lambda>(val, ret). unat val))" by simp
next
  fix val :: "32 word" and ret :: nat
  assume a: "val AND 0xffffff00 \<noteq> 0"
  have "val \<noteq> 0" using a by auto
  then have "0 < unat val" by (simp add: unat_gt_0)
  then have "unat val div 16 < unat val" by simp
  moreover have "unat (drop_bit 4 val) = unat val div 16"
    by (simp only: unat_drop_bit_eq) (simp add: drop_bit_eq_div)
  ultimately have "unat (drop_bit 4 val) < unat val" by simp
  then show "((drop_bit 4 val, ret + 1), (val, ret)) \<in> measure (\<lambda>(val, ret). unat val)"
    by simp
qed

definition getOccupiedBytes :: "32 word \<Rightarrow> error + nat" where
  "getOccupiedBytes val =
     (let ret = getOccupiedBytes_loop val 1
      in if ret > 0 \<and> ret < 4 then Inr ret else Inl AssertOccupiedBytes)"

text \<open>
  \<open>addSentenceSeparator\<close>: the new separator sets. The \<open>bool\<close> it hands on from the
  set's \<open>insert\<close> is left out.
\<close>

definition addSentenceSeparator :: "32 word \<Rightarrow> JMA_Knowledge \<Rightarrow> error + JMA_Knowledge" where
  "addSentenceSeparator val k =
     (case getOccupiedBytes val of
        Inl e \<Rightarrow> Inl e
      | Inr w \<Rightarrow> Inr (k\<lparr> seps := (seps k)(w := insert val (seps k w)) \<rparr>))"

text \<open>The body of the \<open>while(getline(in, line))\<close> loop of \<open>loadSentenceSeparatorConfig\<close>.\<close>

fun loadSeparatorLines :: "JMA_CType \<Rightarrow> string list \<Rightarrow> (nat \<Rightarrow> 32 word set)
    \<Rightarrow> error + (nat \<Rightarrow> 32 word set)" where
  "loadSeparatorLines ct [] ss = Inr ss"
| "loadSeparatorLines ct (l # ls) ss =
     (let line = stripCR l in
      if line = [] \<or> hd line = CHR ''#'' then loadSeparatorLines ct ls ss
      else case ct line of
        Inl e \<Rightarrow> Inl e
      | Inr bytes \<Rightarrow>
          if bytes = 1 then loadSeparatorLines ct ls (ss(1 := insert (pack1 line) (ss 1)))
          else if bytes = 2 then loadSeparatorLines ct ls (ss(2 := insert (pack2 line) (ss 2)))
          else if bytes = 3 then loadSeparatorLines ct ls (ss(3 := insert (pack3 line) (ss 3)))
          else if bytes = 4 then loadSeparatorLines ct ls (ss(4 := insert (pack4 line) (ss 4)))
          else Inl AssertConfigLength)"

definition loadSentenceSeparatorConfig :: "FileSystem \<Rightarrow> string \<Rightarrow> JMA_Knowledge
    \<Rightarrow> error + (int \<times> JMA_Knowledge)" where
  "loadSentenceSeparatorConfig fs fileName k =
     (case fs fileName of
        None \<Rightarrow> Inr (0, k)
      | Some txt \<Rightarrow>
          (case loadSeparatorLines (ctype k) (getlines txt) (seps k) of
             Inl e \<Rightarrow> Inl e
           | Inr s \<Rightarrow> Inr (1, k\<lparr> seps := s \<rparr>)))"

subsection \<open>Configuration files\<close>

text \<open>
  \<open>loadConfig0\<close>: the resource's bytes are read line by line. The map is the caller's
  (passed by reference), so the entries written before a failure stay in it. The stream
  over the resource's bytes is taken to be readable (\<open>!ist\<close> is false).
\<close>

definition config_key :: "string \<Rightarrow> string" where
  "config_key line = rev (dropWhile isspace (rev (takeWhile (\<lambda>c. c \<noteq> CHR ''='') line)))"

definition config_value :: "string \<Rightarrow> string" where
  "config_value line = dropWhile isspace (tl (dropWhile (\<lambda>c. c \<noteq> CHR ''='') line))"

fun loadConfig0_lines :: "string list \<Rightarrow> (string \<Rightarrow> string option)
    \<Rightarrow> bool \<times> (string \<Rightarrow> string option)" where
  "loadConfig0_lines [] m = (True, m)"
| "loadConfig0_lines (l # ls) m =
     (let line = stripCR l in
      if line = [] \<or> hd line = CHR '';'' \<or> hd line = CHR ''#'' then loadConfig0_lines ls m
      else if CHR ''='' \<notin> set line then (False, m)
      else loadConfig0_lines ls (m(config_key line \<mapsto> config_value line)))"

definition loadConfig0 :: "DictArchive \<Rightarrow> string \<Rightarrow> (string \<Rightarrow> string option)
    \<Rightarrow> bool \<times> (string \<Rightarrow> string option)" where
  "loadConfig0 dict filename m =
     (case dict filename of
        None \<Rightarrow> (False, m)
      | Some text \<Rightarrow> loadConfig0_lines (getlines text) m)"

text \<open>A line that is neither blank nor a comment and has no \<open>=\<close>.\<close>

definition lacksEquals :: "string \<Rightarrow> bool" where
  "lacksEquals l =
     (let line = stripCR l in
      line \<noteq> [] \<and> hd line \<noteq> CHR '';'' \<and> hd line \<noteq> CHR ''#'' \<and> CHR ''='' \<notin> set line)"

text \<open>
  \<open>convertFromStr<int>\<close>: the stream extraction skips leading white space, reads an
  optional sign and decimal digits, and fails without a digit or outside the range of
  \<open>int\<close>; anything but white space behind the number is an error too. Every error gives
  \<open>int()\<close>, which is 0.
\<close>

definition digits_value :: "string \<Rightarrow> nat" where
  "digits_value ds = foldl (\<lambda>a c. 10 * a + (of_char c - 48)) 0 ds"

definition convertFromStr_int :: "string \<Rightarrow> int" where
  "convertFromStr_int str =
     (let s1 = dropWhile isspace str;
          neg = (s1 \<noteq> [] \<and> hd s1 = CHR ''-'');
          s2 = (if s1 \<noteq> [] \<and> (hd s1 = CHR ''-'' \<or> hd s1 = CHR ''+'') then tl s1 else s1);
          ds = takeWhile isdigit s2;
          rest = dropWhile isdigit s2;
          v = (if neg then - int (digits_value ds) else int (digits_value ds))
      in if ds = [] \<or> v < - 2147483648 \<or> 2147483647 < v \<or> \<not> list_all isspace rest
         then 0 else v)"

definition BASE_FORM_OFFSET_DEFAULT :: int where "BASE_FORM_OFFSET_DEFAULT = 6"
definition READ_FORM_OFFSET_DEFAULT :: int where "READ_FORM_OFFSET_DEFAULT = 7"
definition NORM_FORM_OFFSET_DEFAULT :: int where "NORM_FORM_OFFSET_DEFAULT = 9"
definition USER_NOUN_POS_DEFAULT :: string where "USER_NOUN_POS_DEFAULT = ''N-USER''"
definition USER_NOUN_COST :: string where "USER_NOUN_COST = ''-500''"

text \<open>
  \<open>loadDictConfig\<close>. \<open>Knowledge::decodeEncodeType\<close> is not part of the sources at hand
  and is a parameter. The result of \<open>loadConfig0\<close> only decides whether a warning is
  printed.
\<close>

definition loadDictConfig :: "(string \<Rightarrow> EncodeType) \<Rightarrow> DictArchive \<Rightarrow> JMA_Knowledge
    \<Rightarrow> JMA_Knowledge" where
  "loadDictConfig decodeEncodeType dict k =
     (let configMap = snd (loadConfig0 dict ''dicrc'' Map.empty);
          base = (case configMap ''base-form-feature-offset'' of
                    Some v \<Rightarrow> convertFromStr_int v | None \<Rightarrow> BASE_FORM_OFFSET_DEFAULT);
          read = (case configMap ''read-form-feature-offset'' of
                    Some v \<Rightarrow> convertFromStr_int v | None \<Rightarrow> READ_FORM_OFFSET_DEFAULT);
          norm = (case configMap ''norm-form-feature-offset'' of
                    Some v \<Rightarrow> convertFromStr_int v | None \<Rightarrow> NORM_FORM_OFFSET_DEFAULT);
          noun = (case configMap ''user-noun-pos'' of
                    Some v \<Rightarrow> v | None \<Rightarrow> USER_NOUN_POS_DEFAULT);
          enc = (case configMap ''config-charset'' of
                    Some v \<Rightarrow> decodeEncodeType (c_str v) | None \<Rightarrow> ENCODE_TYPE_NUM)
      in k\<lparr> baseFormOffset := base, readFormOffset := read, normFormOffset := norm,
            userNounPOS := noun,
            configEncodeType := (if enc = ENCODE_TYPE_NUM then DEFAULT_CONFIG_ENCODE_TYPE else enc) \<rparr>)"

subsection \<open>User dictionaries\<close>

text \<open>\<open>iss >> word\<close>: skip white space, then read up to the next white space.\<close>

definition extract_token :: "string \<Rightarrow> (string \<times> string) option" where
  "extract_token s =
     (let s1 = dropWhile isspace s in
      if s1 = [] then None
      else Some (takeWhile (\<lambda>c. \<not> isspace c) s1, dropWhile (\<lambda>c. \<not> isspace c) s1))"

definition isNumber :: "string \<Rightarrow> bool" where
  "isNumber str = (let s = c_str str in s \<noteq> [] \<and> list_all isdigit s)"

text \<open>
  Modelled from the spec: \<open>CTypeTokenizer\<close> (tokenizer.h and tokenizer.cpp are not part
  of the sources at hand). Section 4.5: the classifier walks the word one code point at
  a time; section 4.1: a width that runs past the terminator is fatal. At the end of the
  word \<open>next\<close> gives the null pointer: \<open>convertTxtToCSV\<close> tests the pointer itself for
  "the word end should be reached". The state is the rest of the word.
\<close>

definition CTypeTokenizer_next :: "JMA_CType \<Rightarrow> string \<Rightarrow> error + (string option \<times> string)" where
  "CTypeTokenizer_next ct raw =
     (if uc raw 0 = 0 then Inr (None, raw)
      else case ct raw of
        Inl e \<Rightarrow> Inl e
      | Inr bc \<Rightarrow>
          if bc = 0 \<or> length (c_str raw) < bc then Inl AssertCharWidth
          else Inr (Some (take bc raw), drop bc raw))"

text \<open>
  The loop \<open>for(int j=0; j<charCount; ++j)\<close>: the lexicon collected so far, or \<open>None\<close>
  when \<open>isValidCharCount\<close> was cleared, together with the rest of the word.
\<close>

fun walkChars :: "JMA_CType \<Rightarrow> nat \<Rightarrow> string \<Rightarrow> string \<Rightarrow> error + (string option \<times> string)" where
  "walkChars ct 0 raw lx = Inr (Some lx, raw)"
| "walkChars ct (Suc n) raw lx =
     (case CTypeTokenizer_next ct raw of
        Inl e \<Rightarrow> Inl e
      | Inr (None, raw') \<Rightarrow> Inl NullDereference
      | Inr (Some p, raw') \<Rightarrow>
          if uc p 0 \<noteq> 0 then walkChars ct n raw' (lx @ c_str p) else Inr (None, raw'))"

text \<open>
  The loop over \<open>compVec\<close>: \<open>isAllNumber\<close>, \<open>isValidCharCount\<close>, \<open>decompList\<close> and the
  rest of the word when the loop is left.
\<close>

fun decompose :: "JMA_CType \<Rightarrow> string list \<Rightarrow> string \<Rightarrow> MorphemeList
    \<Rightarrow> error + (bool \<times> bool \<times> MorphemeList \<times> string)" where
  "decompose ct [] raw dl = Inr (True, True, dl, raw)"
| "decompose ct (c # cs) raw dl =
     (if \<not> isNumber c then Inr (False, True, dl, raw)
      else case walkChars ct (nat (convertFromStr_int c)) raw [] of
        Inl e \<Rightarrow> Inl e
      | Inr (None, raw') \<Rightarrow> Inr (True, False, dl, raw')
      | Inr (Some lx, raw') \<Rightarrow> decompose ct cs raw' (dl @ [\<lparr> lexicon = lx, readForm = [] \<rparr>]))"

text \<open>
  What one line of the word list does: the text it appends to \<open>ost\<close>, whether it reached
  \<open>ost << endl; ++count\<close>, and the entry it stores in \<open>decompMap_\<close>. A line that is
  left with \<open>continue\<close> has already written the head of its record. Where \<open>hasRead\<close>
  is set, \<open>compVec\<close> has just been tested to be non-empty, so
  \<open>assert(compVec.size())\<close> holds and is not a branch of its own.
\<close>

record LineResult =
  written :: string
  counted :: bool
  decomp :: "(string \<times> MorphemeList) option"

definition rejected :: "string \<Rightarrow> LineResult" where
  "rejected txt = \<lparr> written = txt, counted = False, decomp = None \<rparr>"

definition emitted :: "string \<Rightarrow> string option \<Rightarrow> (string \<times> MorphemeList) option \<Rightarrow> LineResult" where
  "emitted txt wholeRead d =
     \<lparr> written = txt @ (case wholeRead of Some r \<Rightarrow> '','' @ r | None \<Rightarrow> '',*'') @ [CHR 0x0A],
       counted = True, decomp = d \<rparr>"

text \<open>The third token, read after a decomposition was accepted.\<close>

definition readingPattern :: "string \<Rightarrow> string \<Rightarrow> MorphemeList \<Rightarrow> string \<Rightarrow> LineResult" where
  "readingPattern txt word decompList rest =
     (case extract_token rest of
        None \<Rightarrow> emitted txt None (Some (word, decompList))
      | Some (pattern, rest') \<Rightarrow>
          (let compVec = tokenizeCSV pattern in
           if compVec = [] then rejected txt
           else if length compVec \<noteq> length decompList then rejected txt
           else emitted txt (Some (concat compVec))
                  (Some (word, map (\<lambda>(m, r). m\<lparr> readForm := r \<rparr>) (zip decompList compVec)))))"

text \<open>
  The head of the record, written as soon as the word is read:
  \<open>word,-1,-1,<cost>,<POS>\<close> and one \<open>,*\<close> for each \<open>i\<close> from \<open>posSize\<close> up to
  \<open>readFormOffset_\<close>.
\<close>

definition recordHead :: "string \<Rightarrow> string \<Rightarrow> nat \<Rightarrow> int \<Rightarrow> string" where
  "recordHead word pos posSize readOffset =
     word @ '',-1,-1,'' @ USER_NOUN_COST @ '','' @ pos
       @ concat (replicate (nat (readOffset - int posSize)) '',*'')"

text \<open>The rest of the loop body, from \<open>if(iss >> pattern)\<close> on.\<close>

definition convertPattern :: "JMA_CType \<Rightarrow> string \<Rightarrow> string \<Rightarrow> string \<Rightarrow> error + LineResult" where
  "convertPattern ct word txt rest =
     (case extract_token rest of
        None \<Rightarrow> Inr (emitted txt None None)
      | Some (pattern, rest') \<Rightarrow>
          (let compVec = tokenizeCSV pattern in
           if compVec = [] then Inr (rejected txt)
           else if isNumber (hd compVec) then
             (case decompose ct compVec word [] of
                Inl e \<Rightarrow> Inl e
              | Inr (isAllNumber, isValidCharCount, decompList, raw) \<Rightarrow>
                  if \<not> isAllNumber then Inr (rejected txt)
                  else if \<not> isValidCharCount then Inr (rejected txt)
                  else (case CTypeTokenizer_next ct raw of
                          Inl e \<Rightarrow> Inl e
                        | Inr (Some p, raw') \<Rightarrow> Inr (rejected txt)
                        | Inr (None, raw') \<Rightarrow>
                            Inr (readingPattern txt word decompList rest')))
           else Inr (emitted txt (Some (concat compVec)) None)))"

definition convertLine :: "JMA_CType \<Rightarrow> string \<Rightarrow> nat \<Rightarrow> int \<Rightarrow> string \<Rightarrow> error + LineResult" where
  "convertLine ct pos posSize readOffset line =
     (case extract_token line of
        None \<Rightarrow> Inr (rejected [])
      | Some (word, rest) \<Rightarrow>
          convertPattern ct word (recordHead word pos posSize readOffset) rest)"

text \<open>The loop \<open>while(getline(in, line))\<close> over the state \<open>(count, ost, decompMap_)\<close>.\<close>

fun convertLines :: "JMA_CType \<Rightarrow> string \<Rightarrow> nat \<Rightarrow> int \<Rightarrow> string list
    \<Rightarrow> 32 word \<times> string \<times> (string \<Rightarrow> MorphemeList option)
    \<Rightarrow> error + (32 word \<times> string \<times> (string \<Rightarrow> MorphemeList option))" where
  "convertLines ct pos posSize readOffset [] st = Inr st"
| "convertLines ct pos posSize readOffset (l # ls) (count, ost, dm) =
     (let line = stripCR l in
      if line = [] \<or> hd line = CHR '';'' \<or> hd line = CHR ''#''
      then convertLines ct pos posSize readOffset ls (count, ost, dm)
      else case convertLine ct pos posSize readOffset line of
        Inl e \<Rightarrow> Inl e
      | Inr r \<Rightarrow>
          convertLines ct pos posSize readOffset ls
            (if counted r then count + 1 else count, ost @ written r,
             case decomp r of None \<Rightarrow> dm | Some (w, d) \<Rightarrow> dm(w \<mapsto> d)))"

text \<open>\<open>convertTxtToCSV\<close>: the count, the stream and the knowledge instance afterwards.\<close>

definition convertTxtToCSV :: "FileSystem \<Rightarrow> JMA_Knowledge \<Rightarrow> string \<Rightarrow> string
    \<Rightarrow> error + (32 word \<times> string \<times> JMA_Knowledge)" where
  "convertTxtToCSV fs k userDicFile ost =
     (let userNounIndex = getIndexFromAlphaPOS (posTable k) (userNounPOS k) in
      if userNounIndex = -1 then Inr (0, ost, k)
      else case getPOS_FULL_CATEGORY (posTable k) userNounIndex of
        None \<Rightarrow> Inr (0, ost, k)
      | Some pos \<Rightarrow>
          (let posSize = length (tokenizeCSV (c_str pos)) in
           if \<not> 0 < posSize then Inl AssertPosSize
           else case fs userDicFile of
             None \<Rightarrow> Inr (0, ost, k)
           | Some txt \<Rightarrow>
               (case convertLines (ctype k) (c_str pos) posSize (readFormOffset k)
                       (getlines txt) (0, ost, decompMap k) of
                  Inl e \<Rightarrow> Inl e
                | Inr (count, ost', dm) \<Rightarrow> Inr (count, ost', k\<lparr> decompMap := dm \<rparr>))))"

subsection \<open>Loading the dictionaries\<close>

text \<open>
  The collaborators outside the knowledge class, each a parameter: opening the archive
  (\<open>JMA_Dictionary::open\<close>, giving the resources \<open>getDict\<close> finds afterwards),
  \<open>Knowledge::decodeEncodeType\<close>, the row parsers of the tables,
  \<open>POSTable::loadCombineRule\<close>, \<open>JMA_Dictionary::copyStrToDict\<close>,
  \<open>mecab_dict_index\<close> and \<open>MeCab::createTagger\<close> (true for a tagger, false for the
  null pointer). The two empty in-memory user dictionaries that \<open>compileUserDict\<close>
  creates in the archive are not part of the state.
\<close>

record Externals =
  dict_open :: "string \<Rightarrow> DictArchive option"
  decodeEncodeType :: "string \<Rightarrow> EncodeType"
  pos_rows :: "string \<Rightarrow> EncodeType \<Rightarrow> EncodeType \<Rightarrow> POSTable option"
  char_rows :: "string \<Rightarrow> EncodeType \<Rightarrow> EncodeType \<Rightarrow> CharTable option"
  loadCombineRule :: "string \<Rightarrow> POSTable \<Rightarrow> bool \<times> POSTable"
  copyStrToDict :: "string \<Rightarrow> string \<Rightarrow> bool"
  mecab_dict_index :: "string list \<Rightarrow> int"
  MeCab_createTagger :: "string \<Rightarrow> bool"

definition createFilePath :: "string \<Rightarrow> string \<Rightarrow> string" where
  "createFilePath dir file = (if dir \<noteq> [] \<and> last dir \<noteq> CHR ''/'' then dir @ ''/'' else dir) @ file"

text \<open>\<open>Knowledge::encodeStr\<close> reads the table \<open>ENCODE_TYPE_STR_\<close> of knowledge.cpp.\<close>

definition encodeStr :: "EncodeType \<Rightarrow> string" where
  "encodeStr t = (case t of ENCODE_TYPE_EUCJP \<Rightarrow> ''EUC-JP'' | ENCODE_TYPE_SJIS \<Rightarrow> ''SHIFT-JIS''
                  | ENCODE_TYPE_NUM \<Rightarrow> [])"

text \<open>
  Modelled from the spec: \<open>POSTable::loadConfig\<close> and \<open>CharTable::loadConfig\<close>
  (pos\_table.cpp and char\_table.cpp are not part of the sources at hand). Section 4.3:
  each table loads from its own named resource of the archive; a missing table is "no
  mapping defined". The row format is not specified, so the parser of the rows is a
  parameter; a table that fails to load is empty.
\<close>

definition POSTable_loadConfig :: "(string \<Rightarrow> EncodeType \<Rightarrow> EncodeType \<Rightarrow> POSTable option)
    \<Rightarrow> DictArchive \<Rightarrow> string \<Rightarrow> EncodeType \<Rightarrow> EncodeType \<Rightarrow> bool \<times> POSTable" where
  "POSTable_loadConfig rows dict name src dest =
     (case dict name of
        None \<Rightarrow> (False, POSTable_empty)
      | Some text \<Rightarrow>
          (case rows text src dest of None \<Rightarrow> (False, POSTable_empty) | Some t \<Rightarrow> (True, t)))"

definition CharTable_loadConfig :: "(string \<Rightarrow> EncodeType \<Rightarrow> EncodeType \<Rightarrow> CharTable option)
    \<Rightarrow> DictArchive \<Rightarrow> string \<Rightarrow> EncodeType \<Rightarrow> EncodeType \<Rightarrow> bool \<times> CharTable" where
  "CharTable_loadConfig rows dict name src dest =
     (case dict name of
        None \<Rightarrow> (False, Map.empty)
      | Some text \<Rightarrow>
          (case rows text src dest of None \<Rightarrow> (False, Map.empty) | Some t \<Rightarrow> (True, t)))"

text \<open>The loop \<open>entryCount += convertTxtToCSV(userDictNames_[i].c_str(), osst)\<close>.\<close>

fun convertAll :: "FileSystem \<Rightarrow> string list \<Rightarrow> 32 word \<times> string \<times> JMA_Knowledge
    \<Rightarrow> error + (32 word \<times> string \<times> JMA_Knowledge)" where
  "convertAll fs [] st = Inr st"
| "convertAll fs (f # fs') (entryCount, osst, k) =
     (case convertTxtToCSV fs k (c_str f) osst of
        Inl e \<Rightarrow> Inl e
      | Inr (n, osst', k') \<Rightarrow> convertAll fs fs' (entryCount + n, osst', k'))"

definition compileUserDict :: "Externals \<Rightarrow> FileSystem \<Rightarrow> JMA_Knowledge
    \<Rightarrow> error + (bool \<times> JMA_Knowledge)" where
  "compileUserDict ext fs k =
     (if userDictNames k = [] then Inr (False, k)
      else
        (let k1 = k\<lparr> decompMap := Map.empty, binUserDic := ''user.bin'' \<rparr> in
         case convertAll fs (userDictNames k1) (0, [], k1) of
           Inl e \<Rightarrow> Inl e
         | Inr (entryCount, osst, k2) \<Rightarrow>
             if entryCount = 0 then Inr (False, k2)
             else if \<not> copyStrToDict ext osst ''user.csv'' then Inr (False, k2)
             else if mecab_dict_index ext
                       [''JMA_Knowledge'', ''-d'', c_str (systemDictPath k2),
                        ''-u'', c_str (binUserDic k2),
                        ''-f'', encodeStr (encodeType k2), ''-t'', encodeStr (encodeType k2),
                        ''user.csv''] \<noteq> 0
                  then Inr (False, k2)
             else Inr (True, k2)))"

definition createTagger :: "Externals \<Rightarrow> JMA_Knowledge \<Rightarrow> error + bool" where
  "createTagger ext k =
     (if userDictNames k \<noteq> [] then
        (if binUserDic k = [] then Inl AssertBinUserDic
         else Inr (MeCab_createTagger ext (''-d '' @ systemDictPath k @ '' -u '' @ binUserDic k)))
      else Inr (MeCab_createTagger ext (''-d '' @ systemDictPath k)))"

text \<open>
  \<open>loadDict\<close>, in three parts, the last first: the user dictionaries and the tagger built
  as a check (\<open>finishLoad\<close>, lines 492-513), the tables (\<open>loadTables\<close>, lines 446-485),
  and the archive and the configuration (lines 433-444).
\<close>

definition finishLoad :: "Externals \<Rightarrow> FileSystem \<Rightarrow> JMA_Knowledge
    \<Rightarrow> error + (int \<times> JMA_Knowledge)" where
  "finishLoad ext fs k =
     (case (if userDictNames k \<noteq> [] then compileUserDict ext fs k else Inr (True, k)) of
        Inl e \<Rightarrow> Inl e
      | Inr (ok, k1) \<Rightarrow>
          if \<not> ok then Inr (0, k1)
          else (case createTagger ext k1 of
                  Inl e \<Rightarrow> Inl e
                | Inr tagger \<Rightarrow> if \<not> tagger then Inr (0, k1) else Inr (1, k1)))"

definition loadTables :: "Externals \<Rightarrow> FileSystem \<Rightarrow> DictArchive \<Rightarrow> JMA_Knowledge
    \<Rightarrow> error + (int \<times> JMA_Knowledge)" where
  "loadTables ext fs dict k1 =
     (let (posOk, pt) = POSTable_loadConfig (pos_rows ext) dict ''pos-id.def''
                          (configEncodeType k1) (encodeType k1);
          k2 = k1\<lparr> posTable := pt \<rparr>
      in if \<not> posOk then Inr (0, k2)
         else
           (let k3 = k2\<lparr> posTable := snd (loadCombineRule ext
                          (createFilePath (c_str (systemDictPath k2)) ''compound.def'')
                          (posTable k2)) \<rparr>;
                k4 = k3\<lparr> kanaTable := snd (CharTable_loadConfig (char_rows ext) dict
                          ''map-kana.def'' (configEncodeType k3) (encodeType k3)) \<rparr>;
                k5 = k4\<lparr> widthTable := snd (CharTable_loadConfig (char_rows ext) dict
                          ''map-width.def'' (configEncodeType k4) (encodeType k4)) \<rparr>;
                k6 = k5\<lparr> caseTable := snd (CharTable_loadConfig (char_rows ext) dict
                          ''map-case.def'' (configEncodeType k5) (encodeType k5)) \<rparr>
            in finishLoad ext fs k6))"

definition loadDict :: "Externals \<Rightarrow> FileSystem \<Rightarrow> JMA_Knowledge
    \<Rightarrow> error + (int \<times> JMA_Knowledge)" where
  "loadDict ext fs k =
     (case dict_open ext (createFilePath (c_str (systemDictPath k)) ''sys.bin'') of
        None \<Rightarrow> Inr (0, k)
      | Some dict \<Rightarrow> loadTables ext fs dict (loadDictConfig (decodeEncodeType ext) dict k))"

section \<open>Concrete inputs\<close>

text \<open>A knowledge instance with the Shift-JIS classifier.\<close>

definition sjisKnowledge :: JMA_Knowledge where
  "sjisKnowledge = (JMA_Knowledge_new (\<lambda>t. getByteCount_SJIS))\<lparr> encodeType := ENCODE_TYPE_SJIS \<rparr>"

text \<open>Two separator files: the first holds the line \<open>a\<close>, the second the line \<open>b\<close>.\<close>

definition sepFiles :: FileSystem where
  "sepFiles = (\<lambda>f. if f = ''first.cfg'' then Some ''a\<newline>''
                  else if f = ''second.cfg'' then Some ''b\<newline>'' else None)"

text \<open>An archive whose configuration resource has a second line without \<open>=\<close>.\<close>

definition cfgArchive :: DictArchive where
  "cfgArchive = (\<lambda>f. if f = ''dicrc'' then Some ''a = 1\<newline>b\<newline>c=2\<newline>'' else None)"

text \<open>
  Collaborators that all succeed, the POS rows giving a table that knows \<open>N-USER\<close>; the
  same with an engine that refuses every dictionary; and an archive with a POS table
  resource whose \<open>dicrc\<close> has no \<open>=\<close> in its first line.
\<close>

definition examplePOSTable :: POSTable where
  "examplePOSTable = \<lparr> getIndexFromAlphaPOS = (\<lambda>s. if s = ''N-USER'' then 5 else -1),
                        getPOS_FULL_CATEGORY = (\<lambda>i. if i = 5 then Some ''N,U'' else None) \<rparr>"

definition exampleExternals :: "DictArchive \<Rightarrow> Externals" where
  "exampleExternals dict =
     \<lparr> dict_open = (\<lambda>p. if p = ''sys.bin'' then Some dict else None),
       decodeEncodeType = (\<lambda>s. if s = ''EUC-JP'' then ENCODE_TYPE_EUCJP
                                else if s = ''SHIFT-JIS'' then ENCODE_TYPE_SJIS else ENCODE_TYPE_NUM),
       pos_rows = (\<lambda>text src dest. Some examplePOSTable),
       char_rows = (\<lambda>text src dest. Some Map.empty),
       loadCombineRule = (\<lambda>path t. (False, t)),
       copyStrToDict = (\<lambda>text name. True),
       mecab_dict_index = (\<lambda>params. 0),
       MeCab_createTagger = (\<lambda>param. True) \<rparr>"



definition noFiles :: FileSystem where
  "noFiles = (\<lambda>f. None)"

text \<open>An archive with a POS table resource and nothing else.\<close>

definition posArchive :: DictArchive where
  "posArchive = (\<lambda>f. if f = ''pos-id.def'' then Some ''rows'' else None)"

text \<open>
  The word of the header's example in Shift-JIS bytes: its two morphemes, their readings
  in katakana, and the line of a word list that decomposes it as 2 and 3 characters.
\<close>

definition lex_Honda :: string where
  "lex_Honda = [CHR 0x96, CHR 0x7B, CHR 0x93, CHR 0x63]"

definition lex_Soichiro :: string where
  "lex_Soichiro = [CHR 0x91, CHR 0x8D, CHR 0x88, CHR 0xEA, CHR 0x98, CHR 0x59]"

definition read_Honda :: string where
  "read_Honda = [CHR 0x83, CHR 0x7A, CHR 0x83, CHR 0x93, CHR 0x83, CHR 0x5F]"

definition read_Soichiro :: string where
  "read_Soichiro = [CHR 0x83, CHR 0x5C, CHR 0x83, CHR 0x45, CHR 0x83, CHR 0x43, CHR 0x83, CHR 0x60,
                    CHR 0x83, CHR 0x8D, CHR 0x83, CHR 0x45]"

definition word_HondaSoichiro :: string where
  "word_HondaSoichiro = lex_Honda @ lex_Soichiro"

definition line_HondaSoichiro :: string where
  "line_HondaSoichiro = word_HondaSoichiro @ '' 2,3 '' @ read_Honda @ '','' @ read_Soichiro"

text \<open>
  A knowledge instance ready for user dictionaries, and word lists: one whose pattern
  asks for 3 characters of the 2-character word \<open>ab\<close>, one whose pattern covers only
  the first character, and one with a plain word, a comment, a rejected line and a word
  with its reading.
\<close>

definition userKnowledge :: JMA_Knowledge where
  "userKnowledge = sjisKnowledge\<lparr> readFormOffset := 7, userNounPOS := ''N-USER'',
                                  posTable := examplePOSTable \<rparr>"

definition wordLists :: FileSystem where
  "wordLists = (\<lambda>f. if f = ''overrun.txt'' then Some ''ab 3\<newline>''
                   else if f = ''short.txt'' then Some ''ab 1\<newline>''
                   else if f = ''words.txt''
                     then Some ''ab\<newline>; comment\<newline>cd 1\<newline>ef yomi\<newline>''
                   else None)"

text \<open>
  The instance with the third word list registered, and the instance with the second,
  which has no valid line.
\<close>

definition dictKnowledge :: JMA_Knowledge where
  "dictKnowledge = addUserDict ''words.txt'' userKnowledge"

definition emptyDictKnowledge :: JMA_Knowledge where
  "emptyDictKnowledge = addUserDict ''short.txt'' userKnowledge"

section \<open>Sentence separators\<close>

lemma loadSeparatorLines_grows:
  "loadSeparatorLines ct ls ss = Inr ss' \<Longrightarrow> ss w \<subseteq> ss' w"
proof (induction ls arbitrary: ss)
  case Nil
  then show ?case by simp
next
  case (Cons l ls)
  show ?case
    using Cons.prems
    by (auto simp: Let_def split: if_splits sum.splits dest!: Cons.IH)
qed

text \<open>
  C1. The claim: after two successful calls of \<open>loadSentenceSeparatorConfig\<close> the
  separators are exactly those of the second file. The code never clears \<open>seps_\<close>:
  after loading the file with \<open>a\<close> and then the file with \<open>b\<close>, both calls return 1
  and \<open>a\<close> is still a separator. In general a load only adds to the sets.
\<close>

theorem reload_keeps_old_separators:
  "(case loadSentenceSeparatorConfig sepFiles ''first.cfg'' sjisKnowledge of
      Inl e \<Rightarrow> False
    | Inr (r1, k1) \<Rightarrow>
        (case loadSentenceSeparatorConfig sepFiles ''second.cfg'' k1 of
           Inl e \<Rightarrow> False
         | Inr (r2, k2) \<Rightarrow>
             r1 = 1 \<and> r2 = 1 \<and> isSentenceSeparator k2 ''b'' = Inr True
             \<and> isSentenceSeparator k2 ''a'' = Inr True))
   \<and> (case loadSentenceSeparatorConfig fs fileName k of
         Inl e \<Rightarrow> True
       | Inr (r, k') \<Rightarrow> seps k w \<subseteq> seps k' w)"
proof
  show "case loadSentenceSeparatorConfig sepFiles ''first.cfg'' sjisKnowledge of
      Inl e \<Rightarrow> False
    | Inr (r1, k1) \<Rightarrow>
        (case loadSentenceSeparatorConfig sepFiles ''second.cfg'' k1 of
           Inl e \<Rightarrow> False
         | Inr (r2, k2) \<Rightarrow>
             r1 = 1 \<and> r2 = 1 \<and> isSentenceSeparator k2 ''b'' = Inr True
             \<and> isSentenceSeparator k2 ''a'' = Inr True)"
    by (simp add: loadSentenceSeparatorConfig_def sepFiles_def sjisKnowledge_def
          JMA_Knowledge_new_def getlines_def stripCR_def getByteCount_SJIS_def uc_def
          isSentenceSeparator_def pack1_def byte32_def)
  show "case loadSentenceSeparatorConfig fs fileName k of
         Inl e \<Rightarrow> True
       | Inr (r, k') \<Rightarrow> seps k w \<subseteq> seps k' w"
    by (auto simp: loadSentenceSeparatorConfig_def split: option.splits sum.splits
          dest: loadSeparatorLines_grows [where w = w])
qed

lemma high_bytes_iff: "(val AND 0xffffff00 \<noteq> 0) = (\<not> val < 0x100)" for val :: "32 word"
proof -
  have "(0xffffff00 :: 32 word) = - (2 ^ 8)" by simp
  then have "val AND 0xffffff00 = val AND NOT (mask 8)"
    by (simp only: minus_exp_eq_not_mask)
  moreover have "(val AND NOT (mask 8) = 0) = (take_bit 8 val = val)"
    by (auto simp: bit_eq_iff bit_and_iff bit_not_iff bit_mask_iff bit_take_bit_iff)
  moreover have "(take_bit 8 val = val) = (drop_bit 8 val = 0)"
    by (rule take_bit_eq_self_iff_drop_bit_eq_0)
  moreover have "unat (drop_bit 8 val) = unat val div 256"
    by (simp only: unat_drop_bit_eq) (simp add: drop_bit_eq_div)
  then have "(drop_bit 8 val = 0) = (val < 0x100)"
    by (simp add: word_less_nat_alt flip: unat_eq_0) arith
  ultimately show ?thesis by simp
qed

lemma shift_nibble_less: "(drop_bit 4 val < 0x100) = (val < 0x1000)" for val :: "32 word"
proof -
  have "unat (drop_bit 4 val) = unat val div 16"
    by (simp only: unat_drop_bit_eq) (simp add: drop_bit_eq_div)
  then show ?thesis by (simp add: word_less_nat_alt) arith
qed

lemma shift_nibble_less2: "(drop_bit 4 val < 0x1000) = (val < 0x10000)" for val :: "32 word"
proof -
  have "unat (drop_bit 4 val) = unat val div 16"
    by (simp only: unat_drop_bit_eq) (simp add: drop_bit_eq_div)
  then show ?thesis by (simp add: word_less_nat_alt) arith
qed

lemma getOccupiedBytes_loop_unfold:
  "getOccupiedBytes_loop val ret =
     (if val < 0x100 then ret else getOccupiedBytes_loop (drop_bit 4 val) (ret + 1))"
  by (subst getOccupiedBytes_loop.simps)
     (simp add: high_bytes_iff del: getOccupiedBytes_loop.simps)

lemma getOccupiedBytes_loop_ge:
  "ret \<le> getOccupiedBytes_loop val ret"
proof (induction val ret rule: getOccupiedBytes_loop.induct)
  case (1 val ret)
  show ?case
  proof (cases "val AND 0xffffff00 \<noteq> 0")
    case True
    then show ?thesis using 1 by (subst getOccupiedBytes_loop.simps) auto
  next
    case False
    then show ?thesis by (subst getOccupiedBytes_loop.simps) auto
  qed
qed

lemma getOccupiedBytes_by_nibbles:
  "getOccupiedBytes val =
     (if val < 0x100 then Inr 1 else if val < 0x1000 then Inr 2
      else if val < 0x10000 then Inr 3 else Inl AssertOccupiedBytes)"
proof -
  define v1 where "v1 = drop_bit 4 val"
  define v2 where "v2 = drop_bit 4 v1"
  define v3 where "v3 = drop_bit 4 v2"
  have v1: "(v1 < 0x100) = (val < 0x1000)" "(v1 < 0x1000) = (val < 0x10000)"
    by (simp_all only: v1_def shift_nibble_less shift_nibble_less2)
  have v2: "(v2 < 0x100) = (v1 < 0x1000)"
    by (simp only: v2_def shift_nibble_less)
  have n: "(1::nat) + 1 = 2" "(2::nat) + 1 = 3" "(3::nat) + 1 = 4" by simp_all
  have step0: "getOccupiedBytes_loop val 1 =
                 (if val < 0x100 then 1 else getOccupiedBytes_loop v1 2)"
    using getOccupiedBytes_loop_unfold [of val 1] unfolding v1_def n .
  have step1: "getOccupiedBytes_loop v1 2 =
                 (if v1 < 0x100 then 2 else getOccupiedBytes_loop v2 3)"
    using getOccupiedBytes_loop_unfold [of v1 2] unfolding v2_def n .
  have step2: "getOccupiedBytes_loop v2 3 =
                 (if v2 < 0x100 then 3 else getOccupiedBytes_loop v3 4)"
    using getOccupiedBytes_loop_unfold [of v2 3] unfolding v3_def n .
  have step3: "4 \<le> getOccupiedBytes_loop v3 4"
    by (rule getOccupiedBytes_loop_ge)
  have order: "val < 0x100 \<Longrightarrow> val < 0x1000" "val < 0x1000 \<Longrightarrow> val < 0x10000"
    by (simp_all add: word_less_nat_alt)
  have loop: "getOccupiedBytes_loop val 1 =
                (if val < 0x100 then 1 else if val < 0x1000 then 2
                 else if val < 0x10000 then 3 else getOccupiedBytes_loop v3 4)"
    by (simp only: step0 step1 step2 v1 v2)
  show ?thesis
    unfolding getOccupiedBytes_def loop
    using step3 order
    by (auto simp: Let_def simp del: getOccupiedBytes_loop.simps)
qed

text \<open>
  C2. The claim: \<open>getOccupiedBytes\<close> gives the least number of bytes (1 to 4) that hold
  the value and is fatal only beyond 4 bytes. The loop shifts by 4 bits, not 8, and the
  assertion demands a result below 4: the two-byte value \<open>0x1000\<close> gets 3, and the
  three-byte value \<open>0x10000\<close> fails the assertion. In general the result is 1 below
  \<open>0x100\<close>, 2 below \<open>0x1000\<close>, 3 below \<open>0x10000\<close>, and the assertion fails from
  \<open>0x10000\<close> on.
\<close>

theorem getOccupiedBytes_shifts_nibbles:
  "getOccupiedBytes 0x1000 = Inr 3 \<and> getOccupiedBytes 0x10000 = Inl AssertOccupiedBytes
   \<and> getOccupiedBytes val =
       (if val < 0x100 then Inr 1 else if val < 0x1000 then Inr 2
        else if val < 0x10000 then Inr 3 else Inl AssertOccupiedBytes)"
  by (simp add: getOccupiedBytes_by_nibbles)

text \<open>
  C9, as stated: under Shift-JIS every string with a non-null first byte has byte count
  1 or 2. A lead byte directly before the terminator has no byte count: the classifier's
  own assertion fails.
\<close>

theorem sjis_lone_lead_byte:
  "uc [CHR 0x81] 0 \<noteq> 0 \<and> getByteCount_SJIS [CHR 0x81] \<noteq> Inr 1
   \<and> getByteCount_SJIS [CHR 0x81] \<noteq> Inr 2"
  by (simp add: getByteCount_SJIS_def uc_def)

text \<open>
  C9, amended: under Shift-JIS, for a string with a non-null first byte the byte count is
  1 or 2, or the classifier's assertion on the trail byte fails (a first byte of
  \<open>0x80\<close> or more directly before the terminator); in each case \<open>isSentenceSeparator\<close>
  does not reach its own assertion. At a null terminator the byte count is 0 and
  \<open>isSentenceSeparator\<close> reaches its assertion.
\<close>

theorem sjis_byte_count:
  "(uc p 0 \<noteq> 0 \<longrightarrow>
      getByteCount_SJIS p = Inr 1 \<or> getByteCount_SJIS p = Inr 2
      \<or> (getByteCount_SJIS p = Inl AssertTrailByte \<and> 0x80 \<le> uc p 0 \<and> uc p 1 = 0))
   \<and> (uc p 0 \<noteq> 0 \<and> ctype k = getByteCount_SJIS \<longrightarrow>
        isSentenceSeparator k p \<noteq> Inl AssertSeparatorLength)
   \<and> (uc p 0 = 0 \<and> ctype k = getByteCount_SJIS \<longrightarrow>
        getByteCount_SJIS p = Inr 0 \<and> isSentenceSeparator k p = Inl AssertSeparatorLength)"
  by (auto simp: getByteCount_SJIS_def isSentenceSeparator_def)

theorem sjis_byte_count_witness:
  "uc [CHR 0x81, CHR 0x40] 0 \<noteq> 0
   \<and> (getByteCount_SJIS [CHR 0x81, CHR 0x40] = Inr 1
        \<or> getByteCount_SJIS [CHR 0x81, CHR 0x40] = Inr 2
        \<or> getByteCount_SJIS [CHR 0x81, CHR 0x40] = Inl AssertTrailByte)
   \<and> isSentenceSeparator sjisKnowledge [CHR 0x81, CHR 0x40] \<noteq> Inl AssertSeparatorLength
   \<and> getByteCount_SJIS [] = Inr 0
   \<and> isSentenceSeparator sjisKnowledge [] = Inl AssertSeparatorLength"
  using sjis_byte_count [of "[CHR 0x81, CHR 0x40]" sjisKnowledge]
    sjis_byte_count [of "[]" sjisKnowledge]
  by (auto simp: uc_def sjisKnowledge_def JMA_Knowledge_new_def)

section \<open>Configuration files\<close>

lemma loadConfig0_lines_good_prefix:
  "\<forall>l\<in>set pre. \<not> lacksEquals l \<Longrightarrow>
     loadConfig0_lines (pre @ rest) m = loadConfig0_lines rest (snd (loadConfig0_lines pre m))"
  by (induction pre arbitrary: m) (auto simp: lacksEquals_def Let_def)

lemma loadConfig0_lines_good:
  "\<forall>l\<in>set pre. \<not> lacksEquals l \<Longrightarrow> fst (loadConfig0_lines pre m)"
  by (induction pre arbitrary: m) (auto simp: lacksEquals_def Let_def)

lemma loadConfig0_lines_bad:
  "lacksEquals bad \<Longrightarrow> loadConfig0_lines (bad # post) m = (False, m)"
  by (auto simp: lacksEquals_def Let_def)

lemma loadConfig0_lines_first_bad:
  assumes "\<exists>l\<in>set ls. lacksEquals l"
  shows "loadConfig0_lines ls m =
           (False, snd (loadConfig0_lines (takeWhile (\<lambda>l. \<not> lacksEquals l) ls) m))"
proof -
  let ?pre = "takeWhile (\<lambda>l. \<not> lacksEquals l) ls"
  let ?rest = "dropWhile (\<lambda>l. \<not> lacksEquals l) ls"
  have rest: "?rest \<noteq> []" using assms by (simp add: dropWhile_eq_Nil_conv)
  then obtain bad post where bp: "?rest = bad # post" by (cases ?rest) auto
  then have bad: "lacksEquals bad" using hd_dropWhile [OF rest] by simp
  have good: "\<forall>l\<in>set ?pre. \<not> lacksEquals l" by (auto dest: set_takeWhileD)
  have "ls = ?pre @ bad # post" using bp by (metis takeWhile_dropWhile_id)
  then have "loadConfig0_lines ls m = loadConfig0_lines (?pre @ bad # post) m" by simp
  also have "\<dots> = loadConfig0_lines (bad # post) (snd (loadConfig0_lines ?pre m))"
    using good by (rule loadConfig0_lines_good_prefix)
  also have "\<dots> = (False, snd (loadConfig0_lines ?pre m))"
    using bad by (rule loadConfig0_lines_bad)
  finally show ?thesis .
qed

text \<open>
  C4, as stated: when a line lacks \<open>=\<close> the parse fails and no partial mapping is
  returned. For the resource with the lines \<open>a = 1\<close>, \<open>b\<close>, \<open>c=2\<close> the parse fails,
  and the caller's map holds \<open>a\<close>.
\<close>

theorem loadConfig0_keeps_entries:
  "\<not> fst (loadConfig0 cfgArchive ''dicrc'' Map.empty)
   \<and> snd (loadConfig0 cfgArchive ''dicrc'' Map.empty) ''a'' = Some ''1''"
  by (simp add: loadConfig0_def cfgArchive_def getlines_def stripCR_def config_key_def
        config_value_def isspace_def)

text \<open>
  C4, amended: for every configuration resource with a line that is neither blank nor a
  comment and lacks \<open>=\<close>, \<open>loadConfig0\<close> returns false; the caller's map then holds
  what the lines before the first such line put there (parsing those lines alone
  succeeds), however many they are.
\<close>

theorem loadConfig0_lacking_equals:
  assumes "dict filename = Some text" and "\<exists>l\<in>set (getlines text). lacksEquals l"
  shows "loadConfig0 dict filename m =
           (False, snd (loadConfig0_lines (takeWhile (\<lambda>l. \<not> lacksEquals l) (getlines text)) m))
         \<and> fst (loadConfig0_lines (takeWhile (\<lambda>l. \<not> lacksEquals l) (getlines text)) m)"
proof
  show "loadConfig0 dict filename m =
           (False, snd (loadConfig0_lines (takeWhile (\<lambda>l. \<not> lacksEquals l) (getlines text)) m))"
    using assms by (simp add: loadConfig0_def loadConfig0_lines_first_bad)
  show "fst (loadConfig0_lines (takeWhile (\<lambda>l. \<not> lacksEquals l) (getlines text)) m)"
    by (rule loadConfig0_lines_good) (auto dest: set_takeWhileD)
qed

theorem loadConfig0_lacking_equals_witness:
  "loadConfig0 cfgArchive ''dicrc'' Map.empty =
     (False, snd (loadConfig0_lines [''a = 1''] Map.empty))
   \<and> fst (loadConfig0_lines [''a = 1''] Map.empty)"
proof -
  have 1: "cfgArchive ''dicrc'' = Some ''a = 1\<newline>b\<newline>c=2\<newline>''"
    by (simp add: cfgArchive_def)
  have 2: "getlines ''a = 1\<newline>b\<newline>c=2\<newline>'' = [''a = 1'', ''b'', ''c=2'']"
    by (simp add: getlines_def)
  have 3: "\<exists>l\<in>set (getlines ''a = 1\<newline>b\<newline>c=2\<newline>''). lacksEquals l"
    unfolding 2 by (simp add: lacksEquals_def stripCR_def)
  have 4: "takeWhile (\<lambda>l. \<not> lacksEquals l) [''a = 1'', ''b'', ''c=2''] = [''a = 1'']"
    by (simp add: lacksEquals_def stripCR_def)
  show ?thesis
    using loadConfig0_lacking_equals [of cfgArchive "''dicrc''"
        "''a = 1\<newline>b\<newline>c=2\<newline>''" Map.empty, OF 1 3]
    unfolding 2 4 .
qed



lemma createTagger_dict_open:
  "createTagger (ext\<lparr> dict_open := d \<rparr>) k = createTagger ext k"
  by (simp add: createTagger_def)

lemma compileUserDict_dict_open:
  "compileUserDict (ext\<lparr> dict_open := d \<rparr>) fs k = compileUserDict ext fs k"
  by (simp add: compileUserDict_def split: sum.splits prod.splits)

lemma finishLoad_dict_open:
  "finishLoad (ext\<lparr> dict_open := d \<rparr>) fs k = finishLoad ext fs k"
  by (simp add: finishLoad_def compileUserDict_dict_open createTagger_dict_open
        cong: sum.case_cong prod.case_cong if_cong)


lemma POSTable_loadConfig_cong:
  "dict' name = dict name \<Longrightarrow>
     POSTable_loadConfig rows dict' name s d = POSTable_loadConfig rows dict name s d"
  by (simp add: POSTable_loadConfig_def)

lemma CharTable_loadConfig_cong:
  "dict' name = dict name \<Longrightarrow>
     CharTable_loadConfig rows dict' name s d = CharTable_loadConfig rows dict name s d"
  by (simp add: CharTable_loadConfig_def)




section \<open>Loading the tables\<close>

lemma convertTxtToCSV_kanaTable:
  "convertTxtToCSV fs (k\<lparr> kanaTable := t \<rparr>) f ost =
     map_sum id (\<lambda>(n, out, k'). (n, out, k'\<lparr> kanaTable := t \<rparr>)) (convertTxtToCSV fs k f ost)"
  by (simp add: convertTxtToCSV_def Let_def split: option.splits sum.splits)

lemma convertAll_kanaTable:
  "convertAll fs files (n, ost, k\<lparr> kanaTable := t \<rparr>) =
     map_sum id (\<lambda>(n, out, k'). (n, out, k'\<lparr> kanaTable := t \<rparr>)) (convertAll fs files (n, ost, k))"
proof (induction files arbitrary: n ost k)
  case Nil
  show ?case by simp
next
  case (Cons f files)
  show ?case
    by (cases "convertTxtToCSV fs k (c_str f) ost")
       (auto simp: convertTxtToCSV_kanaTable Cons.IH)
qed

lemma compileUserDict_kanaTable:
  "compileUserDict ext fs (k\<lparr> kanaTable := t \<rparr>) =
     map_sum id (\<lambda>(ok, k'). (ok, k'\<lparr> kanaTable := t \<rparr>)) (compileUserDict ext fs k)"
proof -
  let ?k1 = "k\<lparr> decompMap := Map.empty, binUserDic := ''user.bin'' \<rparr>"
  have swap: "k\<lparr> kanaTable := t, decompMap := Map.empty, binUserDic := ''user.bin'' \<rparr>
                = ?k1\<lparr> kanaTable := t \<rparr>"
    by simp
  have "convertAll fs (userDictNames k) (0, [], ?k1\<lparr> kanaTable := t \<rparr>) =
        map_sum id (\<lambda>(n, out, k'). (n, out, k'\<lparr> kanaTable := t \<rparr>))
          (convertAll fs (userDictNames k) (0, [], ?k1))"
    by (rule convertAll_kanaTable)
  then show ?thesis
    by (cases "convertAll fs (userDictNames k) (0, [], ?k1)")
       (auto simp: compileUserDict_def swap)
qed

lemma createTagger_kanaTable:
  "createTagger ext (k\<lparr> kanaTable := t \<rparr>) = createTagger ext k"
  by (simp add: createTagger_def)

lemma finishLoad_kanaTable:
  "finishLoad ext fs (k\<lparr> kanaTable := t \<rparr>) =
     map_sum id (\<lambda>(r, k'). (r, k'\<lparr> kanaTable := t \<rparr>)) (finishLoad ext fs k)"
  by (cases "compileUserDict ext fs k"; cases "createTagger ext k")
     (auto simp: finishLoad_def compileUserDict_kanaTable createTagger_kanaTable split: sum.splits)

lemma loadDictConfig_same_dicrc:
  "dict' ''dicrc'' = dict ''dicrc'' \<Longrightarrow> loadDictConfig dec dict' k = loadDictConfig dec dict k"
  by (simp add: loadDictConfig_def loadConfig0_def)

lemma loadDict_opened:
  assumes "dict_open ext (createFilePath (c_str (systemDictPath k)) ''sys.bin'') = Some dict"
  shows "loadDict ext fs k =
     (let k1 = loadDictConfig (decodeEncodeType ext) dict k;
          p = POSTable_loadConfig (pos_rows ext) dict ''pos-id.def''
                (configEncodeType k1) (encodeType k1)
      in if \<not> fst p then Inr (0, k1\<lparr> posTable := snd p \<rparr>)
         else finishLoad ext fs
                (k1\<lparr> posTable := snd (loadCombineRule ext
                          (createFilePath (c_str (systemDictPath k1)) ''compound.def'') (snd p)),
                     kanaTable := snd (CharTable_loadConfig (char_rows ext) dict
                          ''map-kana.def'' (configEncodeType k1) (encodeType k1)),
                     widthTable := snd (CharTable_loadConfig (char_rows ext) dict
                          ''map-width.def'' (configEncodeType k1) (encodeType k1)),
                     caseTable := snd (CharTable_loadConfig (char_rows ext) dict
                          ''map-case.def'' (configEncodeType k1) (encodeType k1)) \<rparr>))"
  using assms by (simp add: loadDict_def loadTables_def Let_def split: prod.splits)

lemma kanaTable_last:
  "k\<lparr> posTable := a, kanaTable := b, widthTable := c, caseTable := d \<rparr>
     = k\<lparr> posTable := a, widthTable := c, caseTable := d, kanaTable := b \<rparr>"
  by simp

lemma finishLoad_code_kanaTable:
  "map_sum id fst (finishLoad ext fs (k\<lparr> kanaTable := t \<rparr>)) = map_sum id fst (finishLoad ext fs k)"
  by (cases "finishLoad ext fs k") (auto simp: finishLoad_kanaTable)

lemma finishLoad_keeps_kanaTable:
  "case finishLoad ext fs (k\<lparr> kanaTable := t \<rparr>) of Inr (r, k') \<Rightarrow> kanaTable k' = t | Inl e \<Rightarrow> True"
  by (cases "finishLoad ext fs k") (auto simp: finishLoad_kanaTable)

text \<open>
  C8. Once the archive is open, \<open>loadDict\<close> returns 0 when the resource
  \<open>pos-id.def\<close> is absent and, more generally, when the POS table fails to load. An
  absent \<open>map-kana.def\<close> does not change what \<open>loadDict\<close> returns: the load ends as
  it does with any kana resource in place (so it succeeds when the other steps do), and
  after a loaded POS table the kana table of the resulting instance is empty.
\<close>

theorem loadDict_pos_required_kana_optional:
  assumes opened: "dict_open ext (createFilePath (c_str (systemDictPath k)) ''sys.bin'') = Some dict"
  shows "(dict ''pos-id.def'' = None \<longrightarrow> map_sum id fst (loadDict ext fs k) = Inr 0)
    \<and> (\<not> fst (POSTable_loadConfig (pos_rows ext) dict ''pos-id.def''
               (configEncodeType (loadDictConfig (decodeEncodeType ext) dict k))
               (encodeType (loadDictConfig (decodeEncodeType ext) dict k))) \<longrightarrow>
         map_sum id fst (loadDict ext fs k) = Inr 0)
    \<and> (dict ''map-kana.def'' = None \<longrightarrow>
         map_sum id fst (loadDict ext fs k) =
           map_sum id fst (loadDict (ext\<lparr> dict_open := \<lambda>p. Some (dict(''map-kana.def'' \<mapsto> kana)) \<rparr>) fs k)
         \<and> (fst (POSTable_loadConfig (pos_rows ext) dict ''pos-id.def''
               (configEncodeType (loadDictConfig (decodeEncodeType ext) dict k))
               (encodeType (loadDictConfig (decodeEncodeType ext) dict k))) \<longrightarrow>
             (case loadDict ext fs k of Inr (r, k') \<Rightarrow> kanaTable k' = Map.empty | Inl e \<Rightarrow> True)))"
proof (intro conjI impI)
  note nf = loadDict_opened [OF opened]
  show "map_sum id fst (loadDict ext fs k) = Inr 0" if "dict ''pos-id.def'' = None"
    using that by (simp add: nf POSTable_loadConfig_def Let_def)
  show "map_sum id fst (loadDict ext fs k) = Inr 0"
    if "\<not> fst (POSTable_loadConfig (pos_rows ext) dict ''pos-id.def''
               (configEncodeType (loadDictConfig (decodeEncodeType ext) dict k))
               (encodeType (loadDictConfig (decodeEncodeType ext) dict k)))"
    using that by (simp add: nf Let_def)
  assume absent: "dict ''map-kana.def'' = None"
  let ?dict' = "dict(''map-kana.def'' \<mapsto> kana)"
  let ?ext' = "ext\<lparr> dict_open := \<lambda>p. Some ?dict' \<rparr>"
  have opened': "dict_open ?ext' (createFilePath (c_str (systemDictPath k)) ''sys.bin'') = Some ?dict'"
    by simp
  note nf' = loadDict_opened [OF opened']
  have config: "loadDictConfig dec ?dict' k = loadDictConfig dec dict k" for dec
    by (rule loadDictConfig_same_dicrc) simp
  have pos: "POSTable_loadConfig rows ?dict' ''pos-id.def'' s d
               = POSTable_loadConfig rows dict ''pos-id.def'' s d" for rows s d
    by (rule POSTable_loadConfig_cong) simp
  have width: "CharTable_loadConfig rows ?dict' ''map-width.def'' s d
               = CharTable_loadConfig rows dict ''map-width.def'' s d" for rows s d
    by (rule CharTable_loadConfig_cong) simp
  have cas: "CharTable_loadConfig rows ?dict' ''map-case.def'' s d
               = CharTable_loadConfig rows dict ''map-case.def'' s d" for rows s d
    by (rule CharTable_loadConfig_cong) simp
  show "map_sum id fst (loadDict ext fs k) = map_sum id fst (loadDict ?ext' fs k)"
    by (simp add: nf nf' config pos width cas finishLoad_dict_open kanaTable_last
          finishLoad_code_kanaTable Let_def)
  have kana: "snd (CharTable_loadConfig rows dict ''map-kana.def'' s d) = Map.empty" for rows s d
    using absent by (simp add: CharTable_loadConfig_def)
  show "case loadDict ext fs k of Inr (r, k') \<Rightarrow> kanaTable k' = Map.empty | Inl e \<Rightarrow> True"
    if "fst (POSTable_loadConfig (pos_rows ext) dict ''pos-id.def''
               (configEncodeType (loadDictConfig (decodeEncodeType ext) dict k))
               (encodeType (loadDictConfig (decodeEncodeType ext) dict k)))"
    using that by (simp add: nf Let_def kana kanaTable_last finishLoad_keeps_kanaTable)
qed


theorem loadDict_pos_required_kana_optional_witness:
  "map_sum id fst (loadDict (exampleExternals Map.empty) noFiles sjisKnowledge) = Inr 0
   \<and> map_sum id fst (loadDict (exampleExternals posArchive) noFiles sjisKnowledge) = Inr 1
   \<and> map_sum id fst (loadDict (exampleExternals posArchive) noFiles sjisKnowledge) =
       map_sum id fst (loadDict ((exampleExternals posArchive)\<lparr> dict_open := \<lambda>p. Some
          (posArchive(''map-kana.def'' \<mapsto> ''rows'')) \<rparr>) noFiles sjisKnowledge)
   \<and> (case loadDict (exampleExternals posArchive) noFiles sjisKnowledge of
         Inr (r, k') \<Rightarrow> kanaTable k' = Map.empty | Inl e \<Rightarrow> True)"
proof -
  have path: "createFilePath (c_str (systemDictPath sjisKnowledge)) ''sys.bin'' = ''sys.bin''"
    by (simp add: createFilePath_def c_str_def sjisKnowledge_def JMA_Knowledge_new_def)
  have o1: "dict_open (exampleExternals Map.empty)
              (createFilePath (c_str (systemDictPath sjisKnowledge)) ''sys.bin'') = Some Map.empty"
    unfolding path by (simp add: exampleExternals_def)
  have o2: "dict_open (exampleExternals posArchive)
              (createFilePath (c_str (systemDictPath sjisKnowledge)) ''sys.bin'') = Some posArchive"
    unfolding path by (simp add: exampleExternals_def)
  have kana: "posArchive ''map-kana.def'' = None" by (simp add: posArchive_def)
  have pos: "fst (POSTable_loadConfig (pos_rows (exampleExternals posArchive)) posArchive ''pos-id.def'' s d)"
    for s d
    by (simp add: POSTable_loadConfig_def posArchive_def exampleExternals_def)
  have one: "map_sum id fst (loadDict (exampleExternals posArchive) noFiles sjisKnowledge) = Inr 1"
    by code_simp
  show ?thesis
    using loadDict_pos_required_kana_optional [OF o1, of noFiles "''rows''"]
      loadDict_pos_required_kana_optional [OF o2, of noFiles "''rows''"] kana pos one
    by simp
qed

section \<open>User dictionaries\<close>

text \<open>
  C5. The claim: a line whose numeric pattern does not exhaust the word exactly is
  rejected, both when the counts are too small and when a walk runs past the end of the
  word. The pattern that covers less than the word is rejected. For the pattern that
  asks for more characters than the word has, the tokenizer is at the end of the word
  and gives the null pointer, which \<open>if(*p)\<close> reads through: the conversion does not
  return.
\<close>

theorem overrun_dereferences_null:
  "map_sum id fst (convertTxtToCSV wordLists userKnowledge ''overrun.txt'' []) = Inl NullDereference
   \<and> (case convertTxtToCSV wordLists userKnowledge ''short.txt'' [] of
         Inl e \<Rightarrow> False
       | Inr (n, out, k') \<Rightarrow> n = 0 \<and> decompMap k' ''ab'' = None)"
  by code_simp

lemma honda_tokens:
  "extract_token line_HondaSoichiro
     = Some (word_HondaSoichiro, '' 2,3 '' @ read_Honda @ '','' @ read_Soichiro)"
  "extract_token ('' 2,3 '' @ read_Honda @ '','' @ read_Soichiro)
     = Some (''2,3'', '' '' @ read_Honda @ '','' @ read_Soichiro)"
  "extract_token ('' '' @ read_Honda @ '','' @ read_Soichiro)
     = Some (read_Honda @ '','' @ read_Soichiro, [])"
  by code_simp+

lemma honda_patterns:
  "tokenizeCSV ''2,3'' = [''2'', ''3'']"
  "isNumber ''2''"
  "tokenizeCSV (read_Honda @ '','' @ read_Soichiro) = [read_Honda, read_Soichiro]"
  by code_simp+

lemma honda_decompose:
  "decompose getByteCount_SJIS [''2'', ''3''] word_HondaSoichiro []
     = Inr (True, True, [\<lparr> lexicon = lex_Honda, readForm = [] \<rparr>,
                         \<lparr> lexicon = lex_Soichiro, readForm = [] \<rparr>], [])"
  "CTypeTokenizer_next getByteCount_SJIS [] = Inr (None, [])"
  by code_simp+

lemma honda_convertLine:
  "convertLine getByteCount_SJIS pos posSize readOffset line_HondaSoichiro =
     Inr \<lparr> written = word_HondaSoichiro @ '',-1,-1,-500,'' @ pos
                       @ concat (replicate (nat (readOffset - int posSize)) '',*'')
                       @ '','' @ read_Honda @ read_Soichiro @ [CHR 0x0A],
           counted = True,
           decomp = Some (word_HondaSoichiro,
                          [\<lparr> lexicon = lex_Honda, readForm = read_Honda \<rparr>,
                           \<lparr> lexicon = lex_Soichiro, readForm = read_Soichiro \<rparr>]) \<rparr>"
  by (simp add: convertLine_def convertPattern_def recordHead_def honda_tokens [simplified]
        honda_patterns [simplified] honda_decompose readingPattern_def emitted_def
        USER_NOUN_COST_def del: decompose.simps)

lemma honda_lines:
  "getlines (line_HondaSoichiro @ [CHR 0x0A]) = [line_HondaSoichiro]"
  "stripCR line_HondaSoichiro = line_HondaSoichiro"
  "line_HondaSoichiro \<noteq> []"
  "hd line_HondaSoichiro \<noteq> CHR '';''"
  "hd line_HondaSoichiro \<noteq> CHR ''#''"
  by code_simp+

text \<open>
  C6. With the Shift-JIS classifier, a word list that holds the line made of the word
  (the bytes of the five characters), the pattern \<open>2,3\<close> and the reading pattern of
  two katakana components gives one entry; the decomposition map gets, for the word, the
  two morphemes with their readings, and the record written ends with the field that
  concatenates the two readings.
\<close>

theorem honda_soichiro_decomposition:
  assumes "ctype k = getByteCount_SJIS"
    and "getIndexFromAlphaPOS (posTable k) (userNounPOS k) = idx" and "idx \<noteq> -1"
    and "getPOS_FULL_CATEGORY (posTable k) idx = Some pos" and "tokenizeCSV (c_str pos) \<noteq> []"
    and "fs file = Some (line_HondaSoichiro @ [CHR 0x0A])"
  shows "convertTxtToCSV fs k file ost =
    Inr (1,
      ost @ word_HondaSoichiro @ '',-1,-1,-500,'' @ c_str pos
        @ concat (replicate (nat (readFormOffset k - int (length (tokenizeCSV (c_str pos))))) '',*'')
        @ '','' @ read_Honda @ read_Soichiro @ [CHR 0x0A],
      k\<lparr> decompMap := (decompMap k)(word_HondaSoichiro \<mapsto>
            [\<lparr> lexicon = lex_Honda, readForm = read_Honda \<rparr>,
             \<lparr> lexicon = lex_Soichiro, readForm = read_Soichiro \<rparr>]) \<rparr>)"
  using assms
  by (simp add: convertTxtToCSV_def honda_lines honda_convertLine)

theorem honda_soichiro_decomposition_witness:
  "convertTxtToCSV (\<lambda>f. Some (line_HondaSoichiro @ [CHR 0x0A])) userKnowledge ''user.txt'' [] =
    Inr (1,
      [] @ word_HondaSoichiro @ '',-1,-1,-500,'' @ c_str ''N,U''
        @ concat (replicate (nat (readFormOffset userKnowledge - int (length (tokenizeCSV (c_str ''N,U''))))) '',*'')
        @ '','' @ read_Honda @ read_Soichiro @ [CHR 0x0A],
      userKnowledge\<lparr> decompMap := (decompMap userKnowledge)(word_HondaSoichiro \<mapsto>
            [\<lparr> lexicon = lex_Honda, readForm = read_Honda \<rparr>,
             \<lparr> lexicon = lex_Soichiro, readForm = read_Soichiro \<rparr>]) \<rparr>)"
proof -
  have 1: "ctype userKnowledge = getByteCount_SJIS"
    by (simp add: userKnowledge_def sjisKnowledge_def JMA_Knowledge_new_def)
  have 2: "getIndexFromAlphaPOS (posTable userKnowledge) (userNounPOS userKnowledge) = 5"
    by (simp add: userKnowledge_def examplePOSTable_def)
  have 3: "(5::int) \<noteq> -1" by simp
  have 4: "getPOS_FULL_CATEGORY (posTable userKnowledge) 5 = Some ''N,U''"
    by (simp add: userKnowledge_def examplePOSTable_def)
  have 5: "tokenizeCSV (c_str ''N,U'') \<noteq> []" by code_simp
  show ?thesis
    by (rule honda_soichiro_decomposition [OF 1 2 3 4 5]) simp
qed

section \<open>Compiling the user dictionaries\<close>

lemma isspace_newline: "isspace (CHR 0x0A)"
  by (simp add: isspace_def)

lemma extract_token_no_newline:
  "extract_token s = Some (w, r) \<Longrightarrow> CHR 0x0A \<notin> set w"
  by (auto simp: extract_token_def Let_def isspace_newline split: if_splits dest: set_takeWhileD)

lemma pieces_from_chars:
  "set (concat (pieces_from d acc s)) \<subseteq> set acc \<union> set s"
proof (induction s arbitrary: acc)
  case Nil
  show ?case by simp
next
  case (Cons c s)
  show ?case
  proof (cases "c = d")
    case True
    then show ?thesis using Cons.IH [of "[]"] by auto
  next
    case False
    then show ?thesis using Cons.IH [of "c # acc"] by auto
  qed
qed

lemma tokenizeCSV_no_newline:
  "CHR 0x0A \<notin> set pattern \<Longrightarrow> CHR 0x0A \<notin> set (concat (tokenizeCSV pattern))"
  using pieces_from_chars [of "CHR '',''" "[]" pattern]
  by (auto simp: tokenizeCSV_def)

lemma count_newline_0: "CHR 0x0A \<notin> set w \<Longrightarrow> count_list w (CHR 0x0A) = 0"
  by (simp add: count_list_0_iff)

lemma emitted_count:
  "CHR 0x0A \<notin> set txt \<Longrightarrow> (\<forall>r. wholeRead = Some r \<longrightarrow> CHR 0x0A \<notin> set r) \<Longrightarrow>
     count_list (written (emitted txt wholeRead d)) (CHR 0x0A) = 1 \<and> counted (emitted txt wholeRead d)"
  by (cases wholeRead) (simp_all add: emitted_def count_newline_0)

lemma rejected_count:
  "CHR 0x0A \<notin> set txt \<Longrightarrow>
     count_list (written (rejected txt)) (CHR 0x0A) = 0 \<and> \<not> counted (rejected txt)"
  by (simp add: rejected_def count_newline_0)

lemma readingPattern_count:
  assumes "CHR 0x0A \<notin> set txt"
  shows "count_list (written (readingPattern txt word dl rest)) (CHR 0x0A)
           = (if counted (readingPattern txt word dl rest) then 1 else 0)"
proof (cases "extract_token rest")
  case None
  then show ?thesis using assms by (simp add: readingPattern_def emitted_count)
next
  case (Some a)
  obtain pattern rest' where a: "a = (pattern, rest')" by (cases a)
  have "CHR 0x0A \<notin> set pattern" using Some a by (auto dest: extract_token_no_newline)
  then have "CHR 0x0A \<notin> set (concat (tokenizeCSV pattern))" by (rule tokenizeCSV_no_newline)
  then show ?thesis
    using assms Some a by (simp add: readingPattern_def Let_def emitted_count rejected_count)
qed

lemma recordHead_no_newline:
  "CHR 0x0A \<notin> set word \<Longrightarrow> CHR 0x0A \<notin> set pos \<Longrightarrow>
     CHR 0x0A \<notin> set (recordHead word pos posSize readOffset)"
  by (auto simp: recordHead_def USER_NOUN_COST_def)

lemma convertPattern_count:
  assumes "convertPattern ct word rec rest = Inr r" and rec: "CHR 0x0A \<notin> set rec"
  shows "count_list (written r) (CHR 0x0A) = (if counted r then 1 else 0)"
proof (cases "extract_token rest")
  case None
  then show ?thesis
    using assms emitted_count [of rec None None] by (auto simp: convertPattern_def)
next
  case (Some b)
  obtain pattern rest' where b: "b = (pattern, rest')" by (cases b)
  have "CHR 0x0A \<notin> set pattern" using Some b by (auto dest: extract_token_no_newline)
  then have comp: "CHR 0x0A \<notin> set (concat (tokenizeCSV pattern))"
    by (rule tokenizeCSV_no_newline)
  have rp: "count_list (written (readingPattern rec word dl rest'')) (CHR 0x0A)
             = (if counted (readingPattern rec word dl rest'') then 1 else 0)" for dl rest''
    using rec by (rule readingPattern_count)
  show ?thesis
    using assms(1) Some b rec comp
      emitted_count [of rec "Some (concat (tokenizeCSV pattern))" None]
      rejected_count [of rec] rp
    by (auto simp: convertPattern_def Let_def
          split: if_splits sum.splits prod.splits option.splits)
qed

lemma convertLine_count:
  assumes "convertLine ct pos posSize readOffset line = Inr r" and "CHR 0x0A \<notin> set pos"
  shows "count_list (written r) (CHR 0x0A) = (if counted r then 1 else 0)"
proof (cases "extract_token line")
  case None
  then show ?thesis using assms by (auto simp: convertLine_def rejected_def)
next
  case (Some a)
  obtain word rest where a: "a = (word, rest)" by (cases a)
  have "CHR 0x0A \<notin> set word" using Some a by (auto dest: extract_token_no_newline)
  then have "CHR 0x0A \<notin> set (recordHead word pos posSize readOffset)"
    using assms(2) by (rule recordHead_no_newline)
  moreover have "convertPattern ct word (recordHead word pos posSize readOffset) rest = Inr r"
    using assms(1) Some a by (simp add: convertLine_def)
  ultimately show ?thesis by (intro convertPattern_count)
qed

lemma convertLines_count:
  assumes "convertLines ct pos posSize readOffset ls (c, ost, dm) = Inr (c', ost', dm')"
    and "CHR 0x0A \<notin> set pos"
  shows "\<exists>w. ost' = ost @ w \<and> c' = c + of_nat (count_list w (CHR 0x0A))"
  using assms(1)
proof (induction ls arbitrary: c ost dm)
  case Nil
  then show ?case by simp
next
  case (Cons l ls)
  show ?case
  proof (cases "stripCR l = [] \<or> hd (stripCR l) = CHR '';'' \<or> hd (stripCR l) = CHR ''#''")
    case True
    then have "convertLines ct pos posSize readOffset ls (c, ost, dm) = Inr (c', ost', dm')"
      using Cons.prems by (simp add: Let_def)
    then show ?thesis by (rule Cons.IH)
  next
    case False
    then obtain r where r: "convertLine ct pos posSize readOffset (stripCR l) = Inr r"
      and rest: "convertLines ct pos posSize readOffset ls
                   (if counted r then c + 1 else c, ost @ written r,
                    case decomp r of None \<Rightarrow> dm | Some (w, d) \<Rightarrow> dm(w \<mapsto> d))
                 = Inr (c', ost', dm')"
      using Cons.prems by (auto simp: Let_def split: sum.splits)
    from Cons.IH [OF rest] obtain w where
      w: "ost' = (ost @ written r) @ w"
         "c' = (if counted r then c + 1 else c) + of_nat (count_list w (CHR 0x0A))"
      by blast
    have "count_list (written r) (CHR 0x0A) = (if counted r then 1 else 0)"
      using r assms(2) by (rule convertLine_count)
    then have "ost' = ost @ (written r @ w)
               \<and> c' = c + of_nat (count_list (written r @ w) (CHR 0x0A))"
      using w by (simp split: if_splits)
    then show ?thesis by blast
  qed
qed

lemma convertTxtToCSV_count:
  assumes "convertTxtToCSV fs k file ost = Inr (n, ost', k')"
    and "\<forall>pos. getPOS_FULL_CATEGORY (posTable k)
                 (getIndexFromAlphaPOS (posTable k) (userNounPOS k)) = Some pos
               \<longrightarrow> CHR 0x0A \<notin> set (c_str pos)"
  shows "\<exists>w. ost' = ost @ w \<and> n = of_nat (count_list w (CHR 0x0A))"
  using assms
  by (auto simp: convertTxtToCSV_def Let_def
        split: if_splits option.splits sum.splits dest!: convertLines_count)


lemma convertTxtToCSV_state:
  "convertTxtToCSV fs k f ost = Inr (n, ost', k') \<Longrightarrow> k' = k\<lparr> decompMap := decompMap k' \<rparr>"
  by (auto simp: convertTxtToCSV_def Let_def split: if_splits option.splits sum.splits)

lemma convertAll_state:
  "convertAll fs files (n0, ost, k) = Inr (n, ost', k') \<Longrightarrow> k' = k\<lparr> decompMap := decompMap k' \<rparr>"
proof (induction files arbitrary: n0 ost k)
  case Nil
  then show ?case by simp
next
  case (Cons f files)
  then obtain m out k1 where
    1: "convertTxtToCSV fs k (c_str f) ost = Inr (m, out, k1)"
    and 2: "convertAll fs files (n0 + m, out, k1) = Inr (n, ost', k')"
    by (auto split: sum.splits)
  have first: "k1 = k\<lparr> decompMap := decompMap k1 \<rparr>" using 1 by (rule convertTxtToCSV_state)
  have later: "k' = k1\<lparr> decompMap := decompMap k' \<rparr>" using 2 by (rule Cons.IH)
  have "k1\<lparr> decompMap := decompMap k' \<rparr> = k\<lparr> decompMap := decompMap k' \<rparr>"
    by (subst first) simp
  with later show ?case by simp
qed

lemma compileUserDict_outcome:
  assumes names: "userDictNames k \<noteq> []"
    and conv: "map_sum id (\<lambda>(n, out, k'). (n, out))
                 (convertAll fs (userDictNames k)
                    (0, [], k\<lparr> decompMap := Map.empty, binUserDic := ''user.bin'' \<rparr>))
               = Inr (entries, osst)"
  shows "map_sum id fst (compileUserDict ext fs k) =
           Inr (entries \<noteq> 0 \<and> copyStrToDict ext osst ''user.csv''
                \<and> mecab_dict_index ext
                      [''JMA_Knowledge'', ''-d'', c_str (systemDictPath k), ''-u'', ''user.bin'',
                       ''-f'', encodeStr (encodeType k), ''-t'', encodeStr (encodeType k),
                       ''user.csv''] = 0)"
proof -
  let ?k1 = "k\<lparr> decompMap := Map.empty, binUserDic := ''user.bin'' \<rparr>"
  obtain k2 where all: "convertAll fs (userDictNames k) (0, [], ?k1) = Inr (entries, osst, k2)"
    using conv by (cases "convertAll fs (userDictNames k) (0, [], ?k1)") auto
  have k2: "k2 = ?k1\<lparr> decompMap := decompMap k2 \<rparr>" using all by (rule convertAll_state)
  have fields: "systemDictPath k2 = systemDictPath k" "binUserDic k2 = ''user.bin''"
      "encodeType k2 = encodeType k"
    by (subst k2, simp)+
  have "c_str ''user.bin'' = ''user.bin''" by (simp add: c_str_def)
  then show ?thesis
    using names all fields by (simp add: compileUserDict_def)
qed

text \<open>
  C7: \<open>compileUserDict\<close> fails when the total of the entries converted over all the
  registered files (the \<open>unsigned int\<close> that the loop adds up) is zero; when the total is
  not zero, and the two steps after it go through (the CSV text is copied into the text
  dictionary and the dictionary compiler returns 0), it succeeds. The count that the
  conversion of one file returns is the number of lines it ended with \<open>endl\<close>, the CSV
  records it appended to the stream (the POS string holding no line feed).
\<close>

theorem compileUserDict_entry_count:
  "(map_sum id (\<lambda>(n, out, k'). (n, out))
        (convertAll fs (userDictNames k)
           (0, [], k\<lparr> decompMap := Map.empty, binUserDic := ''user.bin'' \<rparr>))
      = Inr (0, osst) \<longrightarrow>
     map_sum id fst (compileUserDict ext fs k) = Inr False)
   \<and> (map_sum id (\<lambda>(n, out, k'). (n, out))
        (convertAll fs (userDictNames k)
           (0, [], k\<lparr> decompMap := Map.empty, binUserDic := ''user.bin'' \<rparr>))
      = Inr (entries, osst)
      \<and> entries \<noteq> 0
      \<and> copyStrToDict ext osst ''user.csv''
      \<and> mecab_dict_index ext
            [''JMA_Knowledge'', ''-d'', c_str (systemDictPath k), ''-u'', ''user.bin'',
             ''-f'', encodeStr (encodeType k), ''-t'', encodeStr (encodeType k),
             ''user.csv''] = 0 \<longrightarrow>
     map_sum id fst (compileUserDict ext fs k) = Inr True)
   \<and> (map_sum id (\<lambda>(n, out, k'). (n, out)) (convertTxtToCSV fs k file ost) = Inr (n, ost')
      \<and> (\<forall>pos. getPOS_FULL_CATEGORY (posTable k)
                  (getIndexFromAlphaPOS (posTable k) (userNounPOS k)) = Some pos
                \<longrightarrow> CHR 0x0A \<notin> set (c_str pos)) \<longrightarrow>
     take (length ost) ost' = ost
     \<and> n = of_nat (count_list (drop (length ost) ost') (CHR 0x0A)))"
proof (intro conjI impI)
  assume a: "map_sum id (\<lambda>(n, out, k'). (n, out))
        (convertAll fs (userDictNames k)
           (0, [], k\<lparr> decompMap := Map.empty, binUserDic := ''user.bin'' \<rparr>))
      = Inr (0, osst)"
  show "map_sum id fst (compileUserDict ext fs k) = Inr False"
  proof (cases "userDictNames k = []")
    case True
    then show ?thesis by (simp add: compileUserDict_def)
  next
    case False
    then show ?thesis using compileUserDict_outcome [OF False a, of ext] by simp
  qed
next
  assume a: "map_sum id (\<lambda>(n, out, k'). (n, out))
        (convertAll fs (userDictNames k)
           (0, [], k\<lparr> decompMap := Map.empty, binUserDic := ''user.bin'' \<rparr>))
      = Inr (entries, osst)
      \<and> entries \<noteq> 0
      \<and> copyStrToDict ext osst ''user.csv''
      \<and> mecab_dict_index ext
            [''JMA_Knowledge'', ''-d'', c_str (systemDictPath k), ''-u'', ''user.bin'',
             ''-f'', encodeStr (encodeType k), ''-t'', encodeStr (encodeType k),
             ''user.csv''] = 0"
  then have conv: "map_sum id (\<lambda>(n, out, k'). (n, out))
        (convertAll fs (userDictNames k)
           (0, [], k\<lparr> decompMap := Map.empty, binUserDic := ''user.bin'' \<rparr>))
      = Inr (entries, osst)" by simp
  have names: "userDictNames k \<noteq> []"
  proof
    assume "userDictNames k = []"
    with conv have "entries = 0" by simp
    with a show False by simp
  qed
  show "map_sum id fst (compileUserDict ext fs k) = Inr True"
    using compileUserDict_outcome [OF names conv, of ext] a by simp
next
  assume a: "map_sum id (\<lambda>(n, out, k'). (n, out)) (convertTxtToCSV fs k file ost) = Inr (n, ost')
      \<and> (\<forall>pos. getPOS_FULL_CATEGORY (posTable k)
                  (getIndexFromAlphaPOS (posTable k) (userNounPOS k)) = Some pos
                \<longrightarrow> CHR 0x0A \<notin> set (c_str pos))"
  then obtain k' where "convertTxtToCSV fs k file ost = Inr (n, ost', k')"
    by (cases "convertTxtToCSV fs k file ost") auto
  then obtain w where w: "ost' = ost @ w" "n = of_nat (count_list w (CHR 0x0A))"
    using a convertTxtToCSV_count by blast
  show "take (length ost) ost' = ost" using w by simp
  show "n = of_nat (count_list (drop (length ost) ost') (CHR 0x0A))" using w by simp
qed

theorem compileUserDict_entry_count_witness:
  "map_sum id fst (compileUserDict (exampleExternals Map.empty) wordLists emptyDictKnowledge) = Inr False
   \<and> map_sum id fst (compileUserDict (exampleExternals Map.empty) wordLists dictKnowledge) = Inr True
   \<and> (2 :: 32 word) = of_nat (count_list (drop (length ([] :: string))
        ''ab,-1,-1,-500,N,U,*,*,*,*,*,*\<newline>cd,-1,-1,-500,N,U,*,*,*,*,*ef,-1,-1,-500,N,U,*,*,*,*,*,yomi\<newline>'')
        (CHR 0x0A))"
proof -
  have none: "map_sum id (\<lambda>(n, out, k'). (n, out))
           (convertAll wordLists (userDictNames emptyDictKnowledge)
              (0, [], emptyDictKnowledge\<lparr> decompMap := Map.empty, binUserDic := ''user.bin'' \<rparr>))
         = Inr (0, ''ab,-1,-1,-500,N,U,*,*,*,*,*'')"
    by code_simp
  have conv: "map_sum id (\<lambda>(n, out, k'). (n, out))
           (convertAll wordLists (userDictNames dictKnowledge)
              (0, [], dictKnowledge\<lparr> decompMap := Map.empty, binUserDic := ''user.bin'' \<rparr>))
         = Inr (2, ''ab,-1,-1,-500,N,U,*,*,*,*,*,*\<newline>cd,-1,-1,-500,N,U,*,*,*,*,*ef,-1,-1,-500,N,U,*,*,*,*,*,yomi\<newline>'')"
    by code_simp
  have perfile: "map_sum id (\<lambda>(n, out, k'). (n, out))
           (convertTxtToCSV wordLists dictKnowledge ''words.txt'' [])
         = Inr (2, ''ab,-1,-1,-500,N,U,*,*,*,*,*,*\<newline>cd,-1,-1,-500,N,U,*,*,*,*,*ef,-1,-1,-500,N,U,*,*,*,*,*,yomi\<newline>'')"
    by code_simp
  have pos: "\<forall>pos. getPOS_FULL_CATEGORY (posTable dictKnowledge)
                  (getIndexFromAlphaPOS (posTable dictKnowledge) (userNounPOS dictKnowledge)) = Some pos
                \<longrightarrow> CHR 0x0A \<notin> set (c_str pos)"
    by (auto simp: dictKnowledge_def addUserDict_def userKnowledge_def examplePOSTable_def c_str_def)
  have ext: "copyStrToDict (exampleExternals Map.empty) osst ''user.csv''"
    "mecab_dict_index (exampleExternals Map.empty) params = 0" for osst params
    by (simp_all add: exampleExternals_def)
  have two: "(2 :: 32 word) \<noteq> 0" by simp
  show ?thesis
    using compileUserDict_entry_count [where fs = wordLists and k = emptyDictKnowledge
        and osst = "''ab,-1,-1,-500,N,U,*,*,*,*,*''" and ext = "exampleExternals Map.empty"]
      compileUserDict_entry_count [of wordLists dictKnowledge
        "''ab,-1,-1,-500,N,U,*,*,*,*,*,*\<newline>cd,-1,-1,-500,N,U,*,*,*,*,*ef,-1,-1,-500,N,U,*,*,*,*,*,yomi\<newline>''"
        "exampleExternals Map.empty" 2 "''words.txt''" "[]" 2
        "''ab,-1,-1,-500,N,U,*,*,*,*,*,*\<newline>cd,-1,-1,-500,N,U,*,*,*,*,*ef,-1,-1,-500,N,U,*,*,*,*,*,yomi\<newline>''"]
      none conv perfile pos ext two
    by blast
qed

section \<open>Keyword POS\<close>

lemma loadSentenceSeparatorConfig_keywordPOSSet:
  "loadSentenceSeparatorConfig fs f k = Inr (r, k') \<Longrightarrow> keywordPOSSet k' = keywordPOSSet k"
  by (auto simp: loadSentenceSeparatorConfig_def split: option.splits sum.splits)

lemma addSentenceSeparator_keywordPOSSet:
  "addSentenceSeparator val k = Inr k' \<Longrightarrow> keywordPOSSet k' = keywordPOSSet k"
  by (auto simp: addSentenceSeparator_def split: sum.splits)

lemma compileUserDict_keywordPOSSet:
  assumes "compileUserDict ext fs k = Inr (ok, k')"
  shows "keywordPOSSet k' = keywordPOSSet k"
proof (cases "userDictNames k = []")
  case True
  then show ?thesis using assms by (simp add: compileUserDict_def)
next
  case False
  let ?k1 = "k\<lparr> decompMap := Map.empty, binUserDic := ''user.bin'' \<rparr>"
  from False assms obtain n osst where "convertAll fs (userDictNames k) (0, [], ?k1) = Inr (n, osst, k')"
    by (auto simp: compileUserDict_def split: sum.splits if_splits)
  then have k': "k' = ?k1\<lparr> decompMap := decompMap k' \<rparr>" by (rule convertAll_state)
  show ?thesis by (subst k') simp
qed

lemma finishLoad_keywordPOSSet:
  "finishLoad ext fs k = Inr (r, k') \<Longrightarrow> keywordPOSSet k' = keywordPOSSet k"
  by (auto simp: finishLoad_def split: if_splits sum.splits dest: compileUserDict_keywordPOSSet)

lemma loadDictConfig_keywordPOSSet:
  "keywordPOSSet (loadDictConfig dec dict k) = keywordPOSSet k"
  by (simp add: loadDictConfig_def Let_def)

lemma loadDict_keywordPOSSet:
  assumes "loadDict ext fs k = Inr (r, k')"
  shows "keywordPOSSet k' = keywordPOSSet k"
proof (cases "dict_open ext (createFilePath (c_str (systemDictPath k)) ''sys.bin'')")
  case None
  then show ?thesis using assms by (simp add: loadDict_def)
next
  case (Some dict)
  define k1 where "k1 = loadDictConfig (decodeEncodeType ext) dict k"
  define p where "p = POSTable_loadConfig (pos_rows ext) dict ''pos-id.def''
                        (configEncodeType k1) (encodeType k1)"
  have k1: "keywordPOSSet k1 = keywordPOSSet k"
    by (simp add: k1_def loadDictConfig_keywordPOSSet)
  show ?thesis
  proof (cases "fst p")
    case False
    then have "loadDict ext fs k = Inr (0, k1\<lparr> posTable := snd p \<rparr>)"
      by (simp add: loadDict_opened [OF Some] Let_def k1_def p_def)
    then show ?thesis using assms k1 by auto
  next
    case True
    then obtain k6 where load: "loadDict ext fs k = finishLoad ext fs k6"
      and k6: "keywordPOSSet k6 = keywordPOSSet k1"
      by (simp add: loadDict_opened [OF Some] Let_def k1_def p_def)
    have "keywordPOSSet k' = keywordPOSSet k6"
      using assms unfolding load by (rule finishLoad_keywordPOSSet)
    then show ?thesis using k6 k1 by simp
  qed
qed

text \<open>
  C10. With an empty keyword-POS set \<open>isKeywordPOS\<close> is true for every POS index; with
  a non-empty set it is true exactly for the members of the set. The set is empty on a
  freshly constructed instance, and \<open>loadDict\<close>, \<open>loadSentenceSeparatorConfig\<close> and
  \<open>addSentenceSeparator\<close> leave it as it is.
\<close>

theorem isKeywordPOS_spec:
  "(keywordPOSSet k = {} \<longrightarrow> isKeywordPOS k pos)
   \<and> (keywordPOSSet k \<noteq> {} \<longrightarrow> isKeywordPOS k pos = (pos \<in> keywordPOSSet k))
   \<and> keywordPOSSet (JMA_Knowledge_new inst) = {}
   \<and> (case loadDict ext fs k of
         Inr (r, k') \<Rightarrow> keywordPOSSet k' = keywordPOSSet k | Inl e \<Rightarrow> True)
   \<and> (case loadSentenceSeparatorConfig fs fileName k of
         Inr (r, k') \<Rightarrow> keywordPOSSet k' = keywordPOSSet k | Inl e \<Rightarrow> True)
   \<and> (case addSentenceSeparator val k of
         Inr k' \<Rightarrow> keywordPOSSet k' = keywordPOSSet k | Inl e \<Rightarrow> True)"
proof (intro conjI impI)
  show "isKeywordPOS k pos" if "keywordPOSSet k = {}"
    using that by (simp add: isKeywordPOS_def)
  show "isKeywordPOS k pos = (pos \<in> keywordPOSSet k)" if "keywordPOSSet k \<noteq> {}"
    using that by (simp add: isKeywordPOS_def)
  show "keywordPOSSet (JMA_Knowledge_new inst) = {}"
    by (simp add: JMA_Knowledge_new_def)
  show "case loadDict ext fs k of
          Inr (r, k') \<Rightarrow> keywordPOSSet k' = keywordPOSSet k | Inl e \<Rightarrow> True"
    by (cases "loadDict ext fs k") (auto dest: loadDict_keywordPOSSet)
  show "case loadSentenceSeparatorConfig fs fileName k of
          Inr (r, k') \<Rightarrow> keywordPOSSet k' = keywordPOSSet k | Inl e \<Rightarrow> True"
    by (cases "loadSentenceSeparatorConfig fs fileName k")
       (auto dest: loadSentenceSeparatorConfig_keywordPOSSet)
  show "case addSentenceSeparator val k of
          Inr k' \<Rightarrow> keywordPOSSet k' = keywordPOSSet k | Inl e \<Rightarrow> True"
    by (cases "addSentenceSeparator val k") (auto dest: addSentenceSeparator_keywordPOSSet)
qed

theorem isKeywordPOS_spec_witness:
  "isKeywordPOS sjisKnowledge 5
   \<and> isKeywordPOS (sjisKnowledge\<lparr> keywordPOSSet := {3} \<rparr>) 3
   \<and> \<not> isKeywordPOS (sjisKnowledge\<lparr> keywordPOSSet := {3} \<rparr>) 5"
  using isKeywordPOS_spec [of sjisKnowledge 5]
    isKeywordPOS_spec [of "sjisKnowledge\<lparr> keywordPOSSet := {3} \<rparr>" 3]
    isKeywordPOS_spec [of "sjisKnowledge\<lparr> keywordPOSSet := {3} \<rparr>" 5]
  by (simp add: sjisKnowledge_def JMA_Knowledge_new_def)

end
